theory Spec2Isabelle
  imports Main
begin

section \<open>LambdaConfig: the configuration resolver of crimsoncore\<close>

text \<open>
  The development embeds \<^verbatim>\<open>crimsoncore/lambda_config.py\<close>. Setting names and
  values are strings; the environment and the override mappings are dictionaries from
  strings to strings (the process environment, or a dictionary of the same shape), so
  they are maps \<open>string \<rightharpoonup> string\<close>. A string is the UTF-8 text of the Python
  \<^verbatim>\<open>str\<close>. \<open>lower\<close> changes the 26 capital letters, as \<^verbatim>\<open>str.lower\<close> does on
  ASCII text; what it does with other letters is not modelled. The digit class of the
  regular expression in \<^verbatim>\<open>get_fips_mode\<close> is a parameter of the model.
\<close>

subsection \<open>Errors and values\<close>

text \<open>
  Every failure of the module is a Python \<^verbatim>\<open>ValueError\<close>; the three raise
  statements differ in their message, which is what the constructors carry:
  \<^item> \<open>MissingConfiguration name\<close>: \<^verbatim>\<open>Configuration value for "{name}" was not specified\<close>;
  \<^item> \<open>InvalidConfigurationValue name vs\<close>:
    \<^verbatim>\<open>Unknown {name} value specified; expected values [{vs}]\<close>;
  \<^item> \<open>InvalidState\<close>: \<^verbatim>\<open>log_kms_key_id cannot be used when log_archive_mode is not "s3"\<close>.

  \<open>WrongType\<close> stands for using a boolean where a string is needed (or the reverse). The
  module never does so: see \<open>val_str_not_WrongType\<close> and \<open>val_bool_not_WrongType\<close>.
\<close>

datatype error =
    MissingConfiguration string
  | InvalidConfigurationValue string "string list"
  | InvalidState
  | WrongType

text \<open>What \<^verbatim>\<open>val\<close> returns: the string, or a boolean when coercion was asked for.\<close>

datatype pyval = Str string | Bool bool

subsection \<open>The instance\<close>

text \<open>
  The fields of \<^verbatim>\<open>LambdaConfig.__init__\<close>. Each cached attribute starts as
  \<^verbatim>\<open>None\<close> and is tested with \<^verbatim>\<open>is None\<close>, so it is an option.
  \<^verbatim>\<open>_defaults\<close> and \<^verbatim>\<open>_validations\<close> are assigned once, to literals, and never
  again: they are the constants \<open>defaults\<close> and \<open>validations\<close> below.
\<close>

record LambdaConfig =
  script_name :: string
  overrides :: "string \<rightharpoonup> string"
  lambda_overrides :: "string \<rightharpoonup> (string \<rightharpoonup> string)"
  env :: "string \<rightharpoonup> string"
  application_name :: "string option"
  debug_mode :: "bool option"
  log_level :: "int option"
  log_path :: "string option"
  safe_mode :: "bool option"
  fips_mode :: "bool option"
  log_archive_mode :: "string option"
  aws_region :: "string option"
  log_bucket :: "string option"
  log_kms_key_id :: "string option"
  global_prefix :: "string option"
  environment :: "string option"
  stack_name :: "string option"
  notification_arn :: "string option"

definition defaults :: "string \<rightharpoonup> string" where
  "defaults = map_of
     [(''APPLICATION_NAME'', ''''),
      (''DEBUG_MODE'', ''off''),
      (''ENVIRONMENT'', ''''),
      (''GLOBAL_PREFIX'', ''''),
      (''LOG_PATH'', ''../logs/''),
      (''LOG_ARCHIVE_MODE'', ''stdout''),
      (''SAFE_MODE'', ''off''),
      (''STACK_NAME'', '''')]"

definition on_off :: "string list" where
  "on_off = [''on'', ''off'', ''true'', ''false'', ''yes'', ''no'']"

definition validations :: "string \<rightharpoonup> string list" where
  "validations = map_of
     [(''DEBUG_MODE'', on_off),
      (''ENABLE_NOTIFICATIONS'', on_off),
      (''FIPS_MODE'', on_off),
      (''LOG_ARCHIVE_MODE'', [''s3'', ''stdout'']),
      (''SAFE_MODE'', on_off)]"

text \<open>
  \<^verbatim>\<open>LambdaConfig(name, env, overrides=None, lambda_overrides=None)\<close>: an absent
  override mapping is the empty dictionary.
\<close>

definition init :: "string \<Rightarrow> (string \<rightharpoonup> string) \<Rightarrow> (string \<rightharpoonup> string) option
    \<Rightarrow> (string \<rightharpoonup> (string \<rightharpoonup> string)) option \<Rightarrow> LambdaConfig" where
  "init name e ov lov =
     \<lparr> script_name = name,
       overrides = (case ov of None \<Rightarrow> Map.empty | Some m \<Rightarrow> m),
       lambda_overrides = (case lov of None \<Rightarrow> Map.empty | Some m \<Rightarrow> m),
       env = e,
       application_name = None, debug_mode = None, log_level = None, log_path = None,
       safe_mode = None, fips_mode = None, log_archive_mode = None,
       aws_region = None, log_bucket = None, log_kms_key_id = None,
       global_prefix = None, environment = None, stack_name = None,
       notification_arn = None \<rparr>"

subsection \<open>Strings\<close>

text \<open>\<^verbatim>\<open>str.lower()\<close> on ASCII text: the 26 capital letters change, nothing else does.\<close>

definition lower_char :: "char \<Rightarrow> char" where
  "lower_char ch =
     (case map_of (zip ''ABCDEFGHIJKLMNOPQRSTUVWXYZ'' ''abcdefghijklmnopqrstuvwxyz'') ch of
        None \<Rightarrow> ch | Some l \<Rightarrow> l)"

definition lower :: "string \<Rightarrow> string" where
  "lower s = map lower_char s"

text \<open>\<^verbatim>\<open>sep.join(chunks)\<close>.\<close>

fun join :: "string \<Rightarrow> string list \<Rightarrow> string" where
  "join sep [] = []"
| "join sep [x] = x"
| "join sep (x # y # ys) = x @ sep @ join sep (y # ys)"

subsection \<open>Resolving a value\<close>

text \<open>
  \<^verbatim>\<open>_get_val(name, default_override=None)\<close>. The caller-specific overrides are
  consulted only when the instance's own name is a key of \<^verbatim>\<open>_lambda_overrides\<close>.
\<close>

definition get_val :: "LambdaConfig \<Rightarrow> string \<Rightarrow> string option \<Rightarrow> error + string" where
  "get_val c name default_override =
     (case (case lambda_overrides c (script_name c) of
              None \<Rightarrow> None
            | Some ovs \<Rightarrow> ovs name) of
        Some v \<Rightarrow> Inr v
      | None \<Rightarrow>
         (case overrides c name of
            Some v \<Rightarrow> Inr v
          | None \<Rightarrow>
             (case env c name of
                Some v \<Rightarrow> Inr v
              | None \<Rightarrow>
                 (case defaults name of
                    Some v \<Rightarrow> Inr v
                  | None \<Rightarrow>
                     (case default_override of
                        Some v \<Rightarrow> Inr v
                      | None \<Rightarrow> Inl (MissingConfiguration name))))))"

text \<open>\<^verbatim>\<open>_validate_val(name, value)\<close>: returns nothing, or raises.\<close>

definition validate_val :: "string \<Rightarrow> string \<Rightarrow> error + unit" where
  "validate_val name v =
     (case validations name of
        None \<Rightarrow> Inr ()
      | Some vs \<Rightarrow> if v \<notin> set vs then Inl (InvalidConfigurationValue name vs) else Inr ())"

text \<open>\<^verbatim>\<open>val(name, to_lower=False, bool_coerce=False, default_override=None)\<close>.\<close>

definition val :: "LambdaConfig \<Rightarrow> string \<Rightarrow> bool \<Rightarrow> bool \<Rightarrow> string option \<Rightarrow> error + pyval" where
  "val c name to_lower bool_coerce default_override =
     (case get_val c name default_override of
        Inl e \<Rightarrow> Inl e
      | Inr v0 \<Rightarrow>
         (let v = (if to_lower \<or> bool_coerce then lower v0 else v0) in
          case (if name \<in> dom validations then validate_val name v else Inr ()) of
            Inl e \<Rightarrow> Inl e
          | Inr _ \<Rightarrow>
             Inr (if bool_coerce then Bool (v \<in> set [''on'', ''true'', ''yes'']) else Str v)))"

text \<open>
  The call sites fix \<^verbatim>\<open>bool_coerce\<close>, and with it the type of the result:
  \<open>val_str\<close> is a call without coercion, \<open>val_bool\<close> a call with
  \<^verbatim>\<open>bool_coerce=True\<close> (and \<^verbatim>\<open>to_lower\<close> left at its default).
\<close>

definition val_str :: "LambdaConfig \<Rightarrow> string \<Rightarrow> bool \<Rightarrow> string option \<Rightarrow> error + string" where
  "val_str c name to_lower default_override =
     (case val c name to_lower False default_override of
        Inl e \<Rightarrow> Inl e
      | Inr (Str s) \<Rightarrow> Inr s
      | Inr (Bool b) \<Rightarrow> Inl WrongType)"

definition val_bool :: "LambdaConfig \<Rightarrow> string \<Rightarrow> string option \<Rightarrow> error + bool" where
  "val_bool c name default_override =
     (case val c name False True default_override of
        Inl e \<Rightarrow> Inl e
      | Inr (Bool b) \<Rightarrow> Inr b
      | Inr (Str s) \<Rightarrow> Inl WrongType)"

subsection \<open>The memoised getters\<close>

text \<open>
  A getter reads the instance and may fill a cache attribute, so it returns its result (or
  the error raised) together with the instance as the call leaves it. An exception leaves
  the attributes assigned before it in place.
\<close>

type_synonym 'a result = "(error + 'a) \<times> LambdaConfig"

text \<open>Sequencing: the second step runs on the instance the first one left, unless it raised.\<close>

definition and_then :: "'a result \<Rightarrow> ('a \<Rightarrow> LambdaConfig \<Rightarrow> 'b result) \<Rightarrow> 'b result" where
  "and_then r f = (case r of (Inl e, c) \<Rightarrow> (Inl e, c) | (Inr v, c) \<Rightarrow> f v c)"

text \<open>\<^verbatim>\<open>self.application_name = self.val('APPLICATION_NAME', to_lower=True)\<close>.\<close>

definition get_application_name :: "LambdaConfig \<Rightarrow> string result" where
  "get_application_name c =
     (case application_name c of
        Some v \<Rightarrow> (Inr v, c)
      | None \<Rightarrow>
         (case val_str c ''APPLICATION_NAME'' True None of
            Inl e \<Rightarrow> (Inl e, c)
          | Inr v \<Rightarrow> (Inr v, c\<lparr>application_name := Some v\<rparr>)))"

text \<open>\<^verbatim>\<open>self.debug_mode = self.val('DEBUG_MODE', bool_coerce=True)\<close>.\<close>

definition get_debug_mode :: "LambdaConfig \<Rightarrow> bool result" where
  "get_debug_mode c =
     (case debug_mode c of
        Some v \<Rightarrow> (Inr v, c)
      | None \<Rightarrow>
         (case val_bool c ''DEBUG_MODE'' None of
            Inl e \<Rightarrow> (Inl e, c)
          | Inr v \<Rightarrow> (Inr v, c\<lparr>debug_mode := Some v\<rparr>)))"

text \<open>
  \<^verbatim>\<open>self.log_level = logging.DEBUG if self.get_debug_mode() else logging.INFO\<close>;
  \<^verbatim>\<open>logging.DEBUG\<close> is 10 and \<^verbatim>\<open>logging.INFO\<close> is 20.
\<close>

definition get_log_level :: "LambdaConfig \<Rightarrow> int result" where
  "get_log_level c =
     (case log_level c of
        Some v \<Rightarrow> (Inr v, c)
      | None \<Rightarrow>
         and_then (get_debug_mode c) (\<lambda>d c1.
           let v = (if d then 10 else 20) in (Inr v, c1\<lparr>log_level := Some v\<rparr>)))"

text \<open>\<^verbatim>\<open>self.log_path = self.val('LOG_PATH')\<close>.\<close>

definition get_log_path :: "LambdaConfig \<Rightarrow> string result" where
  "get_log_path c =
     (case log_path c of
        Some v \<Rightarrow> (Inr v, c)
      | None \<Rightarrow>
         (case val_str c ''LOG_PATH'' False None of
            Inl e \<Rightarrow> (Inl e, c)
          | Inr v \<Rightarrow> (Inr v, c\<lparr>log_path := Some v\<rparr>)))"

text \<open>\<^verbatim>\<open>self.safe_mode = self.val('SAFE_MODE', bool_coerce=True)\<close>.\<close>

definition get_safe_mode :: "LambdaConfig \<Rightarrow> bool result" where
  "get_safe_mode c =
     (case safe_mode c of
        Some v \<Rightarrow> (Inr v, c)
      | None \<Rightarrow>
         (case val_bool c ''SAFE_MODE'' None of
            Inl e \<Rightarrow> (Inl e, c)
          | Inr v \<Rightarrow> (Inr v, c\<lparr>safe_mode := Some v\<rparr>)))"

text \<open>\<^verbatim>\<open>self.aws_region = self.val('AWS_REGION', to_lower=True)\<close>.\<close>

definition get_aws_region :: "LambdaConfig \<Rightarrow> string result" where
  "get_aws_region c =
     (case aws_region c of
        Some v \<Rightarrow> (Inr v, c)
      | None \<Rightarrow>
         (case val_str c ''AWS_REGION'' True None of
            Inl e \<Rightarrow> (Inl e, c)
          | Inr v \<Rightarrow> (Inr v, c\<lparr>aws_region := Some v\<rparr>)))"

text \<open>
  \<^verbatim>\<open>re.search('^us-gov-(?:west|east)-[\\d]+$', aws_region)\<close>, as a truth value.
  Without flags, \<^verbatim>\<open>^\<close> matches at the start of the string only, and \<^verbatim>\<open>$\<close>
  matches at the end of the string and also just before a line feed that ends the string.

  The pattern is a \<^verbatim>\<open>str\<close> pattern without \<^verbatim>\<open>re.ASCII\<close>, so \<^verbatim>\<open>\d\<close> is any
  character of the Unicode category Nd (decimal digit), not only \<^verbatim>\<open>0\<close> to \<^verbatim>\<open>9\<close>.
  The table of that category belongs to the Python runtime and grows with its Unicode
  version; it is not part of the module. The model therefore takes what \<^verbatim>\<open>[\d]+\<close>
  matches as a parameter \<open>digits\<close>: \<open>digits s\<close> says that the text \<open>s\<close> is one or more
  decimal digits. What is known of it on ASCII text is \<open>digits_on_ascii\<close> below.

  \<open>gov_region_body\<close> is the pattern between the anchors matching a whole string: one of
  the two prefixes (twelve characters each), then one or more digits.
\<close>

definition gov_region_body :: "(string \<Rightarrow> bool) \<Rightarrow> string \<Rightarrow> bool" where
  "gov_region_body digits s =
     ((take 12 s = ''us-gov-west-'' \<or> take 12 s = ''us-gov-east-'') \<and> digits (drop 12 s))"

definition re_search_gov :: "(string \<Rightarrow> bool) \<Rightarrow> string \<Rightarrow> bool" where
  "re_search_gov digits s =
     (gov_region_body digits s
      \<or> (s \<noteq> [] \<and> last s = CHR 0x0A \<and> gov_region_body digits (butlast s)))"

text \<open>
  \<^verbatim>\<open>get_fips_mode\<close>. The region is read first, whatever \<^verbatim>\<open>FIPS_MODE\<close> is; it
  is a string (it has been lower-cased), so \<^verbatim>\<open>isinstance(aws_region, str)\<close> holds.
  The first argument is the digit class of the runtime, as explained above.
\<close>

definition get_fips_mode :: "(string \<Rightarrow> bool) \<Rightarrow> LambdaConfig \<Rightarrow> bool result" where
  "get_fips_mode digits c =
     (case fips_mode c of
        Some v \<Rightarrow> (Inr v, c)
      | None \<Rightarrow>
         and_then (get_aws_region c) (\<lambda>region c1.
           let in_gov_cloud = re_search_gov digits region in
           case val_bool c1 ''FIPS_MODE'' (Some (if in_gov_cloud then ''on'' else ''off'')) of
             Inl e \<Rightarrow> (Inl e, c1)
           | Inr v \<Rightarrow> (Inr v, c1\<lparr>fips_mode := Some v\<rparr>)))"

text \<open>\<^verbatim>\<open>self.global_prefix = self.val('GLOBAL_PREFIX', to_lower=True)\<close>.\<close>

definition get_global_prefix :: "LambdaConfig \<Rightarrow> string result" where
  "get_global_prefix c =
     (case global_prefix c of
        Some v \<Rightarrow> (Inr v, c)
      | None \<Rightarrow>
         (case val_str c ''GLOBAL_PREFIX'' True None of
            Inl e \<Rightarrow> (Inl e, c)
          | Inr v \<Rightarrow> (Inr v, c\<lparr>global_prefix := Some v\<rparr>)))"

text \<open>\<^verbatim>\<open>self.environment = self.val('ENVIRONMENT', to_lower=True)\<close>.\<close>

definition get_environment :: "LambdaConfig \<Rightarrow> string result" where
  "get_environment c =
     (case environment c of
        Some v \<Rightarrow> (Inr v, c)
      | None \<Rightarrow>
         (case val_str c ''ENVIRONMENT'' True None of
            Inl e \<Rightarrow> (Inl e, c)
          | Inr v \<Rightarrow> (Inr v, c\<lparr>environment := Some v\<rparr>)))"

text \<open>\<^verbatim>\<open>self.stack_name = self.val('STACK_NAME', to_lower=True)\<close>.\<close>

definition get_stack_name :: "LambdaConfig \<Rightarrow> string result" where
  "get_stack_name c =
     (case stack_name c of
        Some v \<Rightarrow> (Inr v, c)
      | None \<Rightarrow>
         (case val_str c ''STACK_NAME'' True None of
            Inl e \<Rightarrow> (Inl e, c)
          | Inr v \<Rightarrow> (Inr v, c\<lparr>stack_name := Some v\<rparr>)))"

text \<open>\<^verbatim>\<open>self.log_archive_mode = self.val('LOG_ARCHIVE_MODE', to_lower=True)\<close>.\<close>

definition get_log_archive_mode :: "LambdaConfig \<Rightarrow> string result" where
  "get_log_archive_mode c =
     (case log_archive_mode c of
        Some v \<Rightarrow> (Inr v, c)
      | None \<Rightarrow>
         (case val_str c ''LOG_ARCHIVE_MODE'' True None of
            Inl e \<Rightarrow> (Inl e, c)
          | Inr v \<Rightarrow> (Inr v, c\<lparr>log_archive_mode := Some v\<rparr>)))"

text \<open>\<^verbatim>\<open>get_log_kms_key_id\<close>: the archive mode is checked only when the key is not cached.\<close>

definition get_log_kms_key_id :: "LambdaConfig \<Rightarrow> string result" where
  "get_log_kms_key_id c =
     (case log_kms_key_id c of
        Some v \<Rightarrow> (Inr v, c)
      | None \<Rightarrow>
         and_then (get_log_archive_mode c) (\<lambda>m c1.
           if m \<noteq> ''s3'' then (Inl InvalidState, c1)
           else
             (case val_str c1 ''LOG_KMS_KEY_ID'' False None of
                Inl e \<Rightarrow> (Inl e, c1)
              | Inr v \<Rightarrow> (Inr v, c1\<lparr>log_kms_key_id := Some v\<rparr>))))"

text \<open>\<^verbatim>\<open>self.notification_arn = self.val('NOTIFICATION_ARN')\<close>.\<close>

definition get_notification_arn :: "LambdaConfig \<Rightarrow> string result" where
  "get_notification_arn c =
     (case notification_arn c of
        Some v \<Rightarrow> (Inr v, c)
      | None \<Rightarrow>
         (case val_str c ''NOTIFICATION_ARN'' False None of
            Inl e \<Rightarrow> (Inl e, c)
          | Inr v \<Rightarrow> (Inr v, c\<lparr>notification_arn := Some v\<rparr>)))"

subsection \<open>The identifier builders\<close>

text \<open>
  The three builders repeat one statement for each optional segment:
  \<^verbatim>\<open>if include_x and len(self.get_x()) > 0: name_chunks.append(self.get_x())\<close>.
  The getter is not called when the flag is off, and is called a second time when the
  value is not empty.
\<close>

definition add_chunk :: "bool \<Rightarrow> (LambdaConfig \<Rightarrow> string result) \<Rightarrow> string list
    \<Rightarrow> LambdaConfig \<Rightarrow> (string list) result" where
  "add_chunk include getter name_chunks c =
     (if \<not> include then (Inr name_chunks, c)
      else
        and_then (getter c) (\<lambda>v c1.
          if length v > 0
          then and_then (getter c1) (\<lambda>v2 c2. (Inr (name_chunks @ [v2]), c2))
          else (Inr name_chunks, c1)))"

text \<open>\<^verbatim>\<open>build_legacy_ssm_param_name\<close>.\<close>

definition build_legacy_ssm_param_name :: "LambdaConfig \<Rightarrow> string \<Rightarrow> bool \<Rightarrow> bool \<Rightarrow> bool \<Rightarrow> bool
    \<Rightarrow> string result" where
  "build_legacy_ssm_param_name c name include_global_prefix include_application_name
       include_environment include_stack_name =
     and_then (add_chunk include_global_prefix get_global_prefix [] c) (\<lambda>ch1 c1.
     and_then (add_chunk include_application_name get_application_name ch1 c1) (\<lambda>ch2 c2.
     and_then (add_chunk include_environment get_environment ch2 c2) (\<lambda>ch3 c3.
     and_then (add_chunk include_stack_name get_stack_name ch3 c3) (\<lambda>ch4 c4.
       (Inr (join ''-'' (ch4 @ [''ssm'', name])), c4)))))"

text \<open>\<^verbatim>\<open>build_ssm_param_name\<close>: the name may be \<^verbatim>\<open>None\<close>.\<close>

definition build_ssm_param_name :: "LambdaConfig \<Rightarrow> string option \<Rightarrow> bool \<Rightarrow> bool \<Rightarrow> bool \<Rightarrow> bool
    \<Rightarrow> string result" where
  "build_ssm_param_name c name include_global_prefix include_application_name
       include_environment include_stack_name =
     and_then (add_chunk include_global_prefix get_global_prefix [''''] c) (\<lambda>ch1 c1.
     and_then (add_chunk include_application_name get_application_name ch1 c1) (\<lambda>ch2 c2.
     and_then (add_chunk include_environment get_environment ch2 c2) (\<lambda>ch3 c3.
     and_then (add_chunk include_stack_name get_stack_name ch3 c3) (\<lambda>ch4 c4.
       (Inr (join ''/'' (case name of
                           Some n \<Rightarrow> ch4 @ [''ssm'', n]
                         | None \<Rightarrow> ch4 @ [''''])), c4)))))"

text \<open>
  \<^verbatim>\<open>build_bucket_name(name, include_global_prefix=True, include_application_name=True,
  include_environment=False)\<close>.
\<close>

definition build_bucket_name :: "LambdaConfig \<Rightarrow> string \<Rightarrow> bool \<Rightarrow> bool \<Rightarrow> bool \<Rightarrow> string result" where
  "build_bucket_name c name include_global_prefix include_application_name
       include_environment =
     and_then (add_chunk include_global_prefix get_global_prefix [] c) (\<lambda>ch1 c1.
     and_then (add_chunk include_application_name get_application_name ch1 c1) (\<lambda>ch2 c2.
     and_then (add_chunk include_environment get_environment ch2 c2) (\<lambda>ch3 c3.
       (Inr (join ''-'' (ch3 @ [name])), c3))))"

text \<open>
  \<^verbatim>\<open>get_log_bucket_name\<close>: the fallback \<^verbatim>\<open>self.build_bucket_name('logs')\<close> is an
  argument of the call, so it is built before \<^verbatim>\<open>LOG_BUCKET_NAME\<close> is looked up.
\<close>

definition get_log_bucket_name :: "LambdaConfig \<Rightarrow> string result" where
  "get_log_bucket_name c =
     (case log_bucket c of
        Some v \<Rightarrow> (Inr v, c)
      | None \<Rightarrow>
         and_then (build_bucket_name c ''logs'' True True False) (\<lambda>b c1.
           case val_str c1 ''LOG_BUCKET_NAME'' True (Some b) of
             Inl e \<Rightarrow> (Inl e, c1)
           | Inr v \<Rightarrow> (Inr v, c1\<lparr>log_bucket := Some v\<rparr>)))"

subsection \<open>The priority chain as a list of sources\<close>

text \<open>
  The sources of a value, highest priority first: the overrides of this caller, the global
  overrides, the environment, the built-in defaults, and the fallback of the call (a
  source that holds every name when the fallback is not null, and none otherwise).
\<close>

definition caller_overrides :: "LambdaConfig \<Rightarrow> (string \<rightharpoonup> string)" where
  "caller_overrides c =
     (case lambda_overrides c (script_name c) of None \<Rightarrow> Map.empty | Some ovs \<Rightarrow> ovs)"

definition sources :: "LambdaConfig \<Rightarrow> string option \<Rightarrow> (string \<rightharpoonup> string) list" where
  "sources c fallback =
     [caller_overrides c, overrides c, env c, defaults, (\<lambda>_. fallback)]"

fun first_found :: "(string \<rightharpoonup> string) list \<Rightarrow> string \<Rightarrow> string option" where
  "first_found [] name = None"
| "first_found (m # ms) name =
     (case m name of Some v \<Rightarrow> Some v | None \<Rightarrow> first_found ms name)"

subsection \<open>Notions used to state the properties\<close>

text \<open>
  The value found for a name in the four mappings (no fallback): \<open>None\<close> when the name
  is in none of them.
\<close>

definition configured :: "LambdaConfig \<Rightarrow> string \<Rightarrow> string option" where
  "configured c name = first_found [caller_overrides c, overrides c, env c, defaults] name"

text \<open>
  An optional segment of an identifier, rendered with the separator that follows it: it
  is present when its flag is set and its value is not empty.
\<close>

definition opt_seg :: "bool \<Rightarrow> string \<Rightarrow> string \<Rightarrow> string" where
  "opt_seg included v sep = (if included \<and> v \<noteq> [] then v @ sep else [])"

text \<open>The segments that are kept, in the order given: flag set and value not empty.\<close>

definition kept :: "(bool \<times> string) list \<Rightarrow> string list" where
  "kept segs = map snd (filter (\<lambda>(included, v). included \<and> v \<noteq> []) segs)"

text \<open>
  ASCII text, and the ten ASCII digits. These are notions of the statements, not of the
  program: the program's digit class is the parameter \<open>digits\<close>.
\<close>

definition is_ascii :: "string \<Rightarrow> bool" where
  "is_ascii s = list_all (\<lambda>ch. of_char ch < (128::nat)) s"

definition ascii_digit :: "char \<Rightarrow> bool" where
  "ascii_digit ch = (ch \<in> set ''0123456789'')"

text \<open>
  What every Python runtime's \<^verbatim>\<open>[\d]+\<close> does on ASCII text: it matches the whole text
  exactly when the text is one or more of the digits \<^verbatim>\<open>0\<close> to \<^verbatim>\<open>9\<close>. Nothing is
  assumed about text with other characters.
\<close>

definition digits_on_ascii :: "(string \<Rightarrow> bool) \<Rightarrow> bool" where
  "digits_on_ascii digits =
     (\<forall>s. is_ascii s \<longrightarrow> digits s = (s \<noteq> [] \<and> list_all ascii_digit s))"

text \<open>
  A digit class to evaluate with: the ASCII digits and the Arabic-Indic digits U+0660 to
  U+0669, which are decimal digits in every version of Unicode. In UTF-8 these are the
  byte \<^verbatim>\<open>D9\<close> followed by one of \<^verbatim>\<open>A0\<close> to \<^verbatim>\<open>A9\<close>.
\<close>

fun sample_digit_run :: "string \<Rightarrow> bool" where
  "sample_digit_run [] = True"
| "sample_digit_run [a] = ascii_digit a"
| "sample_digit_run (a # b # s) =
     (if ascii_digit a then sample_digit_run (b # s)
      else a = CHR 0xD9
           \<and> b \<in> set [CHR 0xA0, CHR 0xA1, CHR 0xA2, CHR 0xA3, CHR 0xA4,
                        CHR 0xA5, CHR 0xA6, CHR 0xA7, CHR 0xA8, CHR 0xA9]
           \<and> sample_digit_run s)"

definition sample_digits :: "string \<Rightarrow> bool" where
  "sample_digits s = (s \<noteq> [] \<and> sample_digit_run s)"

text \<open>
  A region code of the form \<^verbatim>\<open>us-gov-(west|east)-<digits>\<close>: one of the two prefixes
  followed by one or more of the digits \<^verbatim>\<open>0\<close> to \<^verbatim>\<open>9\<close>, and nothing else.
\<close>

definition gov_region_form :: "string \<Rightarrow> bool" where
  "gov_region_form s =
     (\<exists>ds. ds \<noteq> [] \<and> list_all ascii_digit ds
        \<and> (s = ''us-gov-west-'' @ ds \<or> s = ''us-gov-east-'' @ ds))"

text \<open>
  The instance with its three mappings replaced: what a caller sees after the
  dictionaries passed to the constructor have been mutated, the cache attributes being
  as they were.
\<close>

definition with_mappings :: "LambdaConfig \<Rightarrow> (string \<rightharpoonup> string) \<Rightarrow> (string \<rightharpoonup> string)
    \<Rightarrow> (string \<rightharpoonup> (string \<rightharpoonup> string)) \<Rightarrow> LambdaConfig" where
  "with_mappings c e ov lov = c\<lparr>env := e, overrides := ov, lambda_overrides := lov\<rparr>"

text \<open>
  A cached archive key is there only with a cached archive mode \<^verbatim>\<open>s3\<close>. A new
  instance satisfies this and every getter and builder keeps it
  (\<open>kms_cache_ok_init\<close>, \<open>kms_cache_ok_preserved\<close>).
\<close>

definition kms_cache_ok :: "LambdaConfig \<Rightarrow> bool" where
  "kms_cache_ok c =
     (case log_kms_key_id c of None \<Rightarrow> True | Some k \<Rightarrow> log_archive_mode c = Some ''s3'')"

text \<open>
  The configuration of the naming examples: prefix \<^verbatim>\<open>test\<close>, application
  \<^verbatim>\<open>myappname\<close>, environment \<^verbatim>\<open>dev\<close>, stack \<^verbatim>\<open>stack-a\<close>, for a caller
  named \<^verbatim>\<open>test\<close> with no overrides.
\<close>

definition naming_config :: LambdaConfig where
  "naming_config =
     init ''test''
       (map_of [(''GLOBAL_PREFIX'', ''test''), (''APPLICATION_NAME'', ''myappname''),
                (''ENVIRONMENT'', ''dev''), (''STACK_NAME'', ''stack-a'')])
       None None"

text \<open>The two cache attributes that \<open>kms_cache_ok\<close> is about.\<close>

definition archive_cache :: "LambdaConfig \<Rightarrow> string option \<times> string option" where
  "archive_cache c = (log_archive_mode c, log_kms_key_id c)"

text \<open>
  What can happen to an instance between two calls of a getter: a call of any getter or
  builder (whether it returns or raises), and a change of the three mappings. \<open>later c c'\<close>
  says that \<open>c'\<close> is \<open>c\<close> after any number of such steps.
\<close>

inductive step :: "LambdaConfig \<Rightarrow> LambdaConfig \<Rightarrow> bool" where
  step_application_name: "step c (snd (get_application_name c))"
| step_debug_mode: "step c (snd (get_debug_mode c))"
| step_log_level: "step c (snd (get_log_level c))"
| step_log_path: "step c (snd (get_log_path c))"
| step_safe_mode: "step c (snd (get_safe_mode c))"
| step_aws_region: "step c (snd (get_aws_region c))"
| step_fips_mode: "step c (snd (get_fips_mode digits c))"
| step_global_prefix: "step c (snd (get_global_prefix c))"
| step_environment: "step c (snd (get_environment c))"
| step_stack_name: "step c (snd (get_stack_name c))"
| step_log_archive_mode: "step c (snd (get_log_archive_mode c))"
| step_log_kms_key_id: "step c (snd (get_log_kms_key_id c))"
| step_notification_arn: "step c (snd (get_notification_arn c))"
| step_log_bucket_name: "step c (snd (get_log_bucket_name c))"
| step_build_legacy: "step c (snd (build_legacy_ssm_param_name c name ip ia ie is))"
| step_build_ssm: "step c (snd (build_ssm_param_name c oname ip ia ie is))"
| step_build_bucket: "step c (snd (build_bucket_name c name ip ia ie))"
| step_mappings: "step c (with_mappings c e ov lov)"

inductive later :: "LambdaConfig \<Rightarrow> LambdaConfig \<Rightarrow> bool" where
  later_refl: "later c c"
| later_step: "later c c1 \<Longrightarrow> step c1 c2 \<Longrightarrow> later c c2"

text \<open>
  A getter with cache attribute \<open>slot\<close> is memoised, with first-access computation
  \<open>compute\<close>, when
  \<^item> on an instance whose attribute is empty, it returns what \<open>compute\<close> gives (a value
    or an error);
  \<^item> a call that returns a value \<open>v\<close> leaves \<open>v\<close> in the attribute;
  \<^item> every call of the getter on that instance or on any later one returns \<open>v\<close> and
    leaves the instance as it is.
\<close>

definition memoized :: "(LambdaConfig \<Rightarrow> 'a option) \<Rightarrow> (LambdaConfig \<Rightarrow> error + 'a)
    \<Rightarrow> (LambdaConfig \<Rightarrow> 'a result) \<Rightarrow> bool" where
  "memoized slot compute getter =
     ((\<forall>c. slot c = None \<longrightarrow> fst (getter c) = compute c)
      \<and> (\<forall>c v. fst (getter c) = Inr v \<longrightarrow>
            slot (snd (getter c)) = Some v
            \<and> (\<forall>c'. later (snd (getter c)) c' \<longrightarrow> getter c' = (Inr v, c'))))"

text \<open>
  The cache of \<open>c'\<close> extends that of \<open>c\<close>: every attribute filled in \<open>c\<close> has the same
  value in \<open>c'\<close>.
\<close>

definition slot_kept :: "(LambdaConfig \<Rightarrow> 'a option) \<Rightarrow> LambdaConfig \<Rightarrow> LambdaConfig \<Rightarrow> bool" where
  "slot_kept slot c c' = (case slot c of None \<Rightarrow> True | Some v \<Rightarrow> slot c' = Some v)"

definition cache_kept :: "LambdaConfig \<Rightarrow> LambdaConfig \<Rightarrow> bool" where
  "cache_kept c c' =
     (slot_kept application_name c c' \<and> slot_kept debug_mode c c' \<and> slot_kept log_level c c'
      \<and> slot_kept log_path c c' \<and> slot_kept safe_mode c c' \<and> slot_kept fips_mode c c'
      \<and> slot_kept log_archive_mode c c' \<and> slot_kept aws_region c c'
      \<and> slot_kept log_bucket c c' \<and> slot_kept log_kms_key_id c c'
      \<and> slot_kept global_prefix c c' \<and> slot_kept environment c c'
      \<and> slot_kept stack_name c c' \<and> slot_kept notification_arn c c')"

text \<open>
  What the examples do to an instance after a first call: the log bucket name is asked
  for, the three mappings are emptied, the log level is asked for and a parameter path
  is built.
\<close>

definition afterwards :: "LambdaConfig \<Rightarrow> LambdaConfig" where
  "afterwards c =
     snd (build_ssm_param_name
            (snd (get_log_level
                    (with_mappings (snd (get_log_bucket_name c)) Map.empty Map.empty Map.empty)))
            None True True True True)"

text \<open>An instance on which every getter succeeds.\<close>

definition full_config :: LambdaConfig where
  "full_config =
     init ''test''
       (map_of [(''APPLICATION_NAME'', ''MyApp''), (''AWS_REGION'', ''us-gov-east-1''),
                (''DEBUG_MODE'', ''yes''), (''LOG_ARCHIVE_MODE'', ''s3''),
                (''LOG_KMS_KEY_ID'', ''key-1''), (''NOTIFICATION_ARN'', ''arn:aws:sns:x'')])
       (Some (map_of [(''ENVIRONMENT'', ''prod'')]))
       (Some (map_of [(''test'', map_of [(''STACK_NAME'', ''primary'')])]))"

section \<open>Theorems\<close>

lemma defaults_AWS_REGION: "defaults ''AWS_REGION'' = None"
  by (simp add: defaults_def)

text \<open>
  C1. For every instance, setting name and fallback, \<open>get_val\<close> returns the value of the
  first source that holds the name, in the order caller-specific overrides, global
  overrides, environment, defaults, non-null fallback; when no source holds it the call
  fails with \<open>MissingConfiguration\<close> for that name. Resolving \<open>AWS_REGION\<close> on an
  instance with an empty environment and no overrides fails in this way.
\<close>

theorem get_val_priority:
  "get_val c name fallback =
     (case first_found (sources c fallback) name of
        Some v \<Rightarrow> Inr v
      | None \<Rightarrow> Inl (MissingConfiguration name))
   \<and> get_val (init caller Map.empty None None) ''AWS_REGION'' None
       = Inl (MissingConfiguration ''AWS_REGION'')"
  by (simp add: get_val_def sources_def caller_overrides_def init_def defaults_AWS_REGION
      split: option.splits)

theorem get_val_priority_witness:
  "get_val (init ''fn'' (map_of [(''K'', ''env'')]) (Some (map_of [(''K'', ''global'')]))
              (Some (map_of [(''fn'', map_of [(''K'', ''caller'')])])))
      ''K'' (Some ''fallback'') = Inr ''caller''
   \<and> get_val (init ''fn'' (map_of [(''K'', ''env'')]) (Some (map_of [(''K'', ''global'')]))
              (Some (map_of [(''other'', map_of [(''K'', ''caller'')])])))
      ''K'' (Some ''fallback'') = Inr ''global''
   \<and> get_val (init ''fn'' (map_of [(''K'', ''env'')]) None None) ''K'' (Some ''fallback'') = Inr ''env''
   \<and> get_val (init ''fn'' Map.empty None None) ''LOG_PATH'' (Some ''fallback'') = Inr ''../logs/''
   \<and> get_val (init ''fn'' Map.empty None None) ''K'' (Some ''fallback'') = Inr ''fallback''
   \<and> get_val (init ''fn'' Map.empty None None) ''K'' None = Inl (MissingConfiguration ''K'')"
  by (simp add: get_val_priority sources_def caller_overrides_def init_def defaults_def)

subsection \<open>Resolution without the cache\<close>

lemma get_val_configured:
  "get_val c name fb =
     (case configured c name of
        Some v \<Rightarrow> Inr v
      | None \<Rightarrow> (case fb of Some v \<Rightarrow> Inr v | None \<Rightarrow> Inl (MissingConfiguration name)))"
  by (simp add: get_val_def configured_def caller_overrides_def split: option.splits)

lemma val_str_eq:
  "val_str c name to_lower fb =
     (case get_val c name fb of
        Inl e \<Rightarrow> Inl e
      | Inr v0 \<Rightarrow>
          (let v = (if to_lower then lower v0 else v0) in
           case validations name of
             None \<Rightarrow> Inr v
           | Some vs \<Rightarrow> if v \<in> set vs then Inr v else Inl (InvalidConfigurationValue name vs)))"
  by (auto simp: val_str_def val_def validate_val_def Let_def dom_def
      split: sum.splits option.splits)

lemma val_bool_eq:
  "val_bool c name fb =
     (case get_val c name fb of
        Inl e \<Rightarrow> Inl e
      | Inr v0 \<Rightarrow>
          (case validations name of
             None \<Rightarrow> Inr (lower v0 \<in> set [''on'', ''true'', ''yes''])
           | Some vs \<Rightarrow>
               if lower v0 \<in> set vs then Inr (lower v0 \<in> set [''on'', ''true'', ''yes''])
               else Inl (InvalidConfigurationValue name vs)))"
  by (auto simp: val_bool_def val_def validate_val_def Let_def dom_def
      split: sum.splits option.splits)

lemma val_str_not_WrongType: "val_str c name to_lower fb \<noteq> Inl WrongType"
  by (auto simp: val_str_eq get_val_def Let_def split: sum.splits option.splits)

lemma val_bool_not_WrongType: "val_bool c name fb \<noteq> Inl WrongType"
  by (auto simp: val_bool_eq get_val_def Let_def split: sum.splits option.splits)

lemma val_str_configured:
  "val_str c name to_lower fb =
     (case (case configured c name of Some v \<Rightarrow> Some v | None \<Rightarrow> fb) of
        None \<Rightarrow> Inl (MissingConfiguration name)
      | Some v0 \<Rightarrow>
          (let v = (if to_lower then lower v0 else v0) in
           case validations name of
             None \<Rightarrow> Inr v
           | Some vs \<Rightarrow> if v \<in> set vs then Inr v else Inl (InvalidConfigurationValue name vs)))"
  by (simp add: val_str_eq get_val_configured split: option.splits)

lemma val_bool_configured:
  "val_bool c name fb =
     (case (case configured c name of Some v \<Rightarrow> Some v | None \<Rightarrow> fb) of
        None \<Rightarrow> Inl (MissingConfiguration name)
      | Some v0 \<Rightarrow>
          (case validations name of
             None \<Rightarrow> Inr (lower v0 \<in> set [''on'', ''true'', ''yes''])
           | Some vs \<Rightarrow>
               if lower v0 \<in> set vs then Inr (lower v0 \<in> set [''on'', ''true'', ''yes''])
               else Inl (InvalidConfigurationValue name vs)))"
  by (simp add: val_bool_eq get_val_configured split: option.splits)

text \<open>The cache attributes play no part in the resolution of a value.\<close>

lemma configured_cache_update [simp]:
  "configured (c\<lparr>application_name := a1\<rparr>) = configured c"
  "configured (c\<lparr>debug_mode := a2\<rparr>) = configured c"
  "configured (c\<lparr>log_level := a3\<rparr>) = configured c"
  "configured (c\<lparr>log_path := a4\<rparr>) = configured c"
  "configured (c\<lparr>safe_mode := a5\<rparr>) = configured c"
  "configured (c\<lparr>fips_mode := a6\<rparr>) = configured c"
  "configured (c\<lparr>log_archive_mode := a7\<rparr>) = configured c"
  "configured (c\<lparr>aws_region := a8\<rparr>) = configured c"
  "configured (c\<lparr>log_bucket := a9\<rparr>) = configured c"
  "configured (c\<lparr>log_kms_key_id := a10\<rparr>) = configured c"
  "configured (c\<lparr>global_prefix := a11\<rparr>) = configured c"
  "configured (c\<lparr>environment := a12\<rparr>) = configured c"
  "configured (c\<lparr>stack_name := a13\<rparr>) = configured c"
  "configured (c\<lparr>notification_arn := a14\<rparr>) = configured c"
  by (simp_all add: configured_def caller_overrides_def fun_eq_iff)

lemma val_str_cache_update [simp]:
  "val_str (c\<lparr>application_name := a1\<rparr>) = val_str c"
  "val_str (c\<lparr>debug_mode := a2\<rparr>) = val_str c"
  "val_str (c\<lparr>log_level := a3\<rparr>) = val_str c"
  "val_str (c\<lparr>log_path := a4\<rparr>) = val_str c"
  "val_str (c\<lparr>safe_mode := a5\<rparr>) = val_str c"
  "val_str (c\<lparr>fips_mode := a6\<rparr>) = val_str c"
  "val_str (c\<lparr>log_archive_mode := a7\<rparr>) = val_str c"
  "val_str (c\<lparr>aws_region := a8\<rparr>) = val_str c"
  "val_str (c\<lparr>log_bucket := a9\<rparr>) = val_str c"
  "val_str (c\<lparr>log_kms_key_id := a10\<rparr>) = val_str c"
  "val_str (c\<lparr>global_prefix := a11\<rparr>) = val_str c"
  "val_str (c\<lparr>environment := a12\<rparr>) = val_str c"
  "val_str (c\<lparr>stack_name := a13\<rparr>) = val_str c"
  "val_str (c\<lparr>notification_arn := a14\<rparr>) = val_str c"
  by (simp_all add: val_str_configured fun_eq_iff)

lemma val_bool_cache_update [simp]:
  "val_bool (c\<lparr>application_name := a1\<rparr>) = val_bool c"
  "val_bool (c\<lparr>debug_mode := a2\<rparr>) = val_bool c"
  "val_bool (c\<lparr>log_level := a3\<rparr>) = val_bool c"
  "val_bool (c\<lparr>log_path := a4\<rparr>) = val_bool c"
  "val_bool (c\<lparr>safe_mode := a5\<rparr>) = val_bool c"
  "val_bool (c\<lparr>fips_mode := a6\<rparr>) = val_bool c"
  "val_bool (c\<lparr>log_archive_mode := a7\<rparr>) = val_bool c"
  "val_bool (c\<lparr>aws_region := a8\<rparr>) = val_bool c"
  "val_bool (c\<lparr>log_bucket := a9\<rparr>) = val_bool c"
  "val_bool (c\<lparr>log_kms_key_id := a10\<rparr>) = val_bool c"
  "val_bool (c\<lparr>global_prefix := a11\<rparr>) = val_bool c"
  "val_bool (c\<lparr>environment := a12\<rparr>) = val_bool c"
  "val_bool (c\<lparr>stack_name := a13\<rparr>) = val_bool c"
  "val_bool (c\<lparr>notification_arn := a14\<rparr>) = val_bool c"
  by (simp_all add: val_bool_configured fun_eq_iff)

subsection \<open>The segment getters\<close>

lemma segment_getters_fst:
  "fst (get_global_prefix c) =
     (case global_prefix c of Some v \<Rightarrow> Inr v | None \<Rightarrow> val_str c ''GLOBAL_PREFIX'' True None)"
  "fst (get_application_name c) =
     (case application_name c of Some v \<Rightarrow> Inr v
      | None \<Rightarrow> val_str c ''APPLICATION_NAME'' True None)"
  "fst (get_environment c) =
     (case environment c of Some v \<Rightarrow> Inr v | None \<Rightarrow> val_str c ''ENVIRONMENT'' True None)"
  "fst (get_stack_name c) =
     (case stack_name c of Some v \<Rightarrow> Inr v | None \<Rightarrow> val_str c ''STACK_NAME'' True None)"
  by (simp_all add: get_global_prefix_def get_application_name_def get_environment_def
      get_stack_name_def split: option.splits sum.splits)

text \<open>
  The four segments have a default and no enumerated domain, so their getters always
  return a value.
\<close>

lemma segment_configured:
  "configured c ''GLOBAL_PREFIX'' \<noteq> None" "configured c ''APPLICATION_NAME'' \<noteq> None"
  "configured c ''ENVIRONMENT'' \<noteq> None" "configured c ''STACK_NAME'' \<noteq> None"
  by (simp_all add: configured_def defaults_def split: option.splits)

lemma segment_getters_total:
  "\<exists>p. fst (get_global_prefix c) = Inr p" "\<exists>a. fst (get_application_name c) = Inr a"
  "\<exists>e. fst (get_environment c) = Inr e" "\<exists>s. fst (get_stack_name c) = Inr s"
  using segment_configured [of c]
  by (auto simp: segment_getters_fst val_str_configured validations_def Let_def
      split: option.splits)

text \<open>A segment getter is not affected by the caches of the segments before it.\<close>

lemma segment_getters_frame [simp]:
  "fst (get_application_name (c\<lparr>global_prefix := x\<rparr>)) = fst (get_application_name c)"
  "fst (get_environment (c\<lparr>global_prefix := x\<rparr>)) = fst (get_environment c)"
  "fst (get_stack_name (c\<lparr>global_prefix := x\<rparr>)) = fst (get_stack_name c)"
  "fst (get_environment (c\<lparr>application_name := x\<rparr>)) = fst (get_environment c)"
  "fst (get_stack_name (c\<lparr>application_name := x\<rparr>)) = fst (get_stack_name c)"
  "fst (get_stack_name (c\<lparr>environment := x\<rparr>)) = fst (get_stack_name c)"
  by (simp_all add: segment_getters_fst split: option.splits)

lemma segment_getters_run:
  "fst (get_global_prefix c) = Inr p \<Longrightarrow>
     get_global_prefix c = (Inr p, c\<lparr>global_prefix := Some p\<rparr>)"
  "fst (get_application_name c) = Inr a \<Longrightarrow>
     get_application_name c = (Inr a, c\<lparr>application_name := Some a\<rparr>)"
  "fst (get_environment c) = Inr e \<Longrightarrow>
     get_environment c = (Inr e, c\<lparr>environment := Some e\<rparr>)"
  "fst (get_stack_name c) = Inr s \<Longrightarrow>
     get_stack_name c = (Inr s, c\<lparr>stack_name := Some s\<rparr>)"
  by (auto simp: get_global_prefix_def get_application_name_def get_environment_def
      get_stack_name_def split: option.splits sum.splits)

lemma segment_getters_cached:
  "get_global_prefix (c\<lparr>global_prefix := Some p\<rparr>) = (Inr p, c\<lparr>global_prefix := Some p\<rparr>)"
  "get_application_name (c\<lparr>application_name := Some a\<rparr>)
     = (Inr a, c\<lparr>application_name := Some a\<rparr>)"
  "get_environment (c\<lparr>environment := Some e\<rparr>) = (Inr e, c\<lparr>environment := Some e\<rparr>)"
  "get_stack_name (c\<lparr>stack_name := Some s\<rparr>) = (Inr s, c\<lparr>stack_name := Some s\<rparr>)"
  by (simp_all add: get_global_prefix_def get_application_name_def get_environment_def
      get_stack_name_def)

subsection \<open>The chunks of an identifier\<close>

lemma add_chunk_run:
  assumes "g c = (Inr v, c1)" and "g c1 = (Inr v, c1)"
  shows "add_chunk inc g chs c = (Inr (chs @ kept [(inc, v)]), if inc then c1 else c)"
  using assms by (simp add: add_chunk_def and_then_def kept_def)

lemma add_chunk_segment:
  "fst (get_global_prefix c) = Inr p \<Longrightarrow>
     add_chunk inc get_global_prefix chs c =
       (Inr (chs @ kept [(inc, p)]), if inc then c\<lparr>global_prefix := Some p\<rparr> else c)"
  "fst (get_application_name c) = Inr a \<Longrightarrow>
     add_chunk inc get_application_name chs c =
       (Inr (chs @ kept [(inc, a)]), if inc then c\<lparr>application_name := Some a\<rparr> else c)"
  "fst (get_environment c) = Inr e \<Longrightarrow>
     add_chunk inc get_environment chs c =
       (Inr (chs @ kept [(inc, e)]), if inc then c\<lparr>environment := Some e\<rparr> else c)"
  "fst (get_stack_name c) = Inr s \<Longrightarrow>
     add_chunk inc get_stack_name chs c =
       (Inr (chs @ kept [(inc, s)]), if inc then c\<lparr>stack_name := Some s\<rparr> else c)"
  by (rule add_chunk_run, erule segment_getters_run, rule segment_getters_cached)+

lemma kept4:
  "kept [(ip, p), (ia, a), (ie, e), (is, s)]
     = kept [(ip, p)] @ kept [(ia, a)] @ kept [(ie, e)] @ kept [(is, s)]"
  by (simp add: kept_def)

lemma kept3:
  "kept [(ip, p), (ia, a), (ie, e)] = kept [(ip, p)] @ kept [(ia, a)] @ kept [(ie, e)]"
  by (simp add: kept_def)

lemma legacy_chunks:
  assumes "fst (get_global_prefix c) = Inr p" "fst (get_application_name c) = Inr a"
    "fst (get_environment c) = Inr e" "fst (get_stack_name c) = Inr s"
  shows "fst (build_legacy_ssm_param_name c name ip ia ie is) =
           Inr (join ''-'' (kept [(ip, p), (ia, a), (ie, e), (is, s)] @ [''ssm'', name]))"
  using assms unfolding kept4 build_legacy_ssm_param_name_def
  by (cases ip; cases ia; cases ie; cases "is"; simp add: add_chunk_segment and_then_def)

lemma ssm_chunks:
  assumes "fst (get_global_prefix c) = Inr p" "fst (get_application_name c) = Inr a"
    "fst (get_environment c) = Inr e" "fst (get_stack_name c) = Inr s"
  shows "fst (build_ssm_param_name c name ip ia ie is) =
           Inr (join ''/'' ([''''] @ kept [(ip, p), (ia, a), (ie, e), (is, s)]
                  @ (case name of Some n \<Rightarrow> [''ssm'', n] | None \<Rightarrow> [''''])))"
  using assms unfolding kept4 build_ssm_param_name_def
  by (cases ip; cases ia; cases ie; cases "is"; cases name;
      simp add: add_chunk_segment and_then_def)

lemma bucket_chunks:
  assumes "fst (get_global_prefix c) = Inr p" "fst (get_application_name c) = Inr a"
    "fst (get_environment c) = Inr e"
  shows "fst (build_bucket_name c name ip ia ie) =
           Inr (join ''-'' (kept [(ip, p), (ia, a), (ie, e)] @ [name]))"
  using assms unfolding kept3 build_bucket_name_def
  by (cases ip; cases ia; cases ie; simp add: add_chunk_segment and_then_def)

lemma join_kept_Cons:
  "rest \<noteq> [] \<Longrightarrow>
     join sep (kept ((i, v) # segs) @ rest) = opt_seg i v sep @ join sep (kept segs @ rest)"
  by (cases "kept segs @ rest") (auto simp: kept_def opt_seg_def)

lemma join_kept4:
  assumes "rest \<noteq> []"
  shows "join sep (kept [(ip, p), (ia, a), (ie, e), (is, s)] @ rest) =
    opt_seg ip p sep @ opt_seg ia a sep @ opt_seg ie e sep @ opt_seg is s sep @ join sep rest"
  using assms by (simp add: join_kept_Cons) (simp add: kept_def)

lemma join_leading_empty: "xs \<noteq> [] \<Longrightarrow> join sep ([] # xs) = sep @ join sep xs"
  by (cases xs) simp_all

text \<open>Evaluating the segment getters on a concrete instance.\<close>

lemmas eval_simps = init_def configured_def caller_overrides_def defaults_def validations_def
  on_off_def lower_def lower_char_def val_str_configured val_bool_configured Let_def

lemma naming_config_segments:
  "fst (get_global_prefix naming_config) = Inr ''test''"
  "fst (get_application_name naming_config) = Inr ''myappname''"
  "fst (get_environment naming_config) = Inr ''dev''"
  "fst (get_stack_name naming_config) = Inr ''stack-a''"
  by (simp_all add: naming_config_def segment_getters_fst eval_simps)

subsection \<open>Legacy parameter names\<close>

text \<open>
  C2 (as amended). Let \<open>p\<close>, \<open>a\<close>, \<open>e\<close>, \<open>s\<close> be the global prefix, application name,
  environment and stack name the getters return on the instance. The legacy name is
  \<^verbatim>\<open>{p-}{a-}{e-}{s-}ssm-name\<close>: each optional segment, followed by a dash, is present
  when its flag is set and its value is not empty; the marker \<^verbatim>\<open>ssm\<close> always precedes
  the name, and there is no leading or trailing separator. With prefix \<^verbatim>\<open>test\<close>,
  application \<^verbatim>\<open>myappname\<close>, environment \<^verbatim>\<open>dev\<close> and stack \<^verbatim>\<open>stack-a\<close>, the
  name built for \<^verbatim>\<open>param1\<close> with all four flags set is
  \<^verbatim>\<open>test-myappname-dev-stack-a-ssm-param1\<close>; it is \<^verbatim>\<open>test-myappname-stack-a-ssm-param1\<close>
  when the environment flag is off and the other three are set, and \<^verbatim>\<open>ssm-param1\<close> when
  all flags are off.
\<close>

theorem legacy_name_format:
  assumes "fst (get_global_prefix c) = Inr p" and "fst (get_application_name c) = Inr a"
    and "fst (get_environment c) = Inr e" and "fst (get_stack_name c) = Inr s"
  shows "fst (build_legacy_ssm_param_name c name ip ia ie is) =
           Inr (opt_seg ip p ''-'' @ opt_seg ia a ''-'' @ opt_seg ie e ''-'' @ opt_seg is s ''-''
                @ ''ssm-'' @ name)
    \<and> fst (build_legacy_ssm_param_name naming_config ''param1'' True True True True)
        = Inr ''test-myappname-dev-stack-a-ssm-param1''
    \<and> fst (build_legacy_ssm_param_name naming_config ''param1'' True True False True)
        = Inr ''test-myappname-stack-a-ssm-param1''
    \<and> fst (build_legacy_ssm_param_name naming_config ''param1'' False False False False)
        = Inr ''ssm-param1''"
proof -
  have general: "fst (build_legacy_ssm_param_name c name ip ia ie is) =
      Inr (opt_seg ip p ''-'' @ opt_seg ia a ''-'' @ opt_seg ie e ''-'' @ opt_seg is s ''-''
           @ ''ssm-'' @ name)"
    by (simp add: legacy_chunks [OF assms] join_kept4)
  have examples: "fst (build_legacy_ssm_param_name naming_config ''param1'' x1 x2 x3 x4) =
      Inr (join ''-'' (kept [(x1, ''test''), (x2, ''myappname''), (x3, ''dev''), (x4, ''stack-a'')]
             @ [''ssm'', ''param1'']))" for x1 x2 x3 x4
    by (rule legacy_chunks [OF naming_config_segments])
  show ?thesis
    using general by (simp add: examples kept_def)
qed

theorem legacy_name_format_witness:
  "fst (build_legacy_ssm_param_name (init ''test'' (map_of [(''GLOBAL_PREFIX'', ''Test'')]) None None)
         ''param5'' True True False False) = Inr ''test-ssm-param5''"
proof -
  let ?c = "init ''test'' (map_of [(''GLOBAL_PREFIX'', ''Test'')]) None None"
  have "fst (get_global_prefix ?c) = Inr ''test''" "fst (get_application_name ?c) = Inr ''''"
    "fst (get_environment ?c) = Inr ''''" "fst (get_stack_name ?c) = Inr ''''"
    by (simp_all add: segment_getters_fst eval_simps)
  from legacy_name_format [OF this, of "''param5''" True True False False]
  show ?thesis by (simp add: opt_seg_def)
qed

text \<open>
  The claim as first stated gives \<^verbatim>\<open>test-myappname-stack-a-ssm-param1\<close> for all four
  flags set with environment \<^verbatim>\<open>dev\<close>; the environment segment is there.
\<close>

theorem legacy_name_all_flags_counterexample:
  "fst (build_legacy_ssm_param_name naming_config ''param1'' True True True True)
     \<noteq> Inr ''test-myappname-stack-a-ssm-param1''"
proof -
  have "fst (build_legacy_ssm_param_name naming_config ''param1'' True True True True) =
      Inr (join ''-'' (kept [(True, ''test''), (True, ''myappname''), (True, ''dev''), (True, ''stack-a'')]
             @ [''ssm'', ''param1'']))"
    by (rule legacy_chunks [OF naming_config_segments])
  then show ?thesis by (simp add: kept_def)
qed

subsection \<open>Hierarchical parameter names\<close>

text \<open>
  C3. With \<open>p\<close>, \<open>a\<close>, \<open>e\<close>, \<open>s\<close> the values the four segment getters return, and for
  every combination of flags, \<open>build_ssm_param_name\<close> with a name returns
  \<^verbatim>\<open>/{p/}{a/}{e/}{s/}ssm/name\<close>, and with no name returns \<^verbatim>\<open>/{p/}{a/}{e/}{s/}\<close>:
  a leading slash always, the marker \<^verbatim>\<open>ssm\<close> only before a name, a trailing slash
  when there is no name. The three examples of the specification hold.
\<close>

theorem ssm_name_format:
  assumes "fst (get_global_prefix c) = Inr p" and "fst (get_application_name c) = Inr a"
    and "fst (get_environment c) = Inr e" and "fst (get_stack_name c) = Inr s"
  shows "fst (build_ssm_param_name c (Some name) ip ia ie is) =
           Inr (''/'' @ opt_seg ip p ''/'' @ opt_seg ia a ''/'' @ opt_seg ie e ''/''
                @ opt_seg is s ''/'' @ ''ssm/'' @ name)
    \<and> fst (build_ssm_param_name c None ip ia ie is) =
           Inr (''/'' @ opt_seg ip p ''/'' @ opt_seg ia a ''/'' @ opt_seg ie e ''/''
                @ opt_seg is s ''/'')
    \<and> fst (build_ssm_param_name naming_config (Some ''param1'') True True True True)
        = Inr ''/test/myappname/dev/stack-a/ssm/param1''
    \<and> fst (build_ssm_param_name naming_config None True True True True)
        = Inr ''/test/myappname/dev/stack-a/''
    \<and> fst (build_ssm_param_name naming_config (Some ''param8'') False False False False)
        = Inr ''/ssm/param8''"
proof -
  have named: "fst (build_ssm_param_name c (Some name) ip ia ie is) =
      Inr (''/'' @ opt_seg ip p ''/'' @ opt_seg ia a ''/'' @ opt_seg ie e ''/''
           @ opt_seg is s ''/'' @ ''ssm/'' @ name)"
    by (simp add: ssm_chunks [OF assms] join_leading_empty join_kept4)
  have unnamed: "fst (build_ssm_param_name c None ip ia ie is) =
      Inr (''/'' @ opt_seg ip p ''/'' @ opt_seg ia a ''/'' @ opt_seg ie e ''/''
           @ opt_seg is s ''/'')"
    by (simp add: ssm_chunks [OF assms] join_leading_empty join_kept4)
  have examples: "fst (build_ssm_param_name naming_config nm x1 x2 x3 x4) =
      Inr (join ''/'' ([''''] @ kept [(x1, ''test''), (x2, ''myappname''), (x3, ''dev''), (x4, ''stack-a'')]
             @ (case nm of Some n \<Rightarrow> [''ssm'', n] | None \<Rightarrow> [''''])))" for nm x1 x2 x3 x4
    by (rule ssm_chunks [OF naming_config_segments])
  show ?thesis
    using named unnamed by (simp add: examples kept_def)
qed

theorem ssm_name_format_witness:
  "fst (build_ssm_param_name (init ''test'' (map_of [(''STACK_NAME'', ''Stack-B'')]) None None)
         (Some ''webhook_url'') True False True True) = Inr ''/stack-b/ssm/webhook_url''
   \<and> fst (build_ssm_param_name (init ''test'' (map_of [(''STACK_NAME'', ''Stack-B'')]) None None)
         None True False True True) = Inr ''/stack-b/''"
proof -
  let ?c = "init ''test'' (map_of [(''STACK_NAME'', ''Stack-B'')]) None None"
  have "fst (get_global_prefix ?c) = Inr ''''" "fst (get_application_name ?c) = Inr ''''"
    "fst (get_environment ?c) = Inr ''''" "fst (get_stack_name ?c) = Inr ''stack-b''"
    by (simp_all add: segment_getters_fst eval_simps)
  from ssm_name_format [OF this, of "''webhook_url''" True False True True]
  show ?thesis by (simp add: opt_seg_def)
qed

subsection \<open>Empty segments\<close>

text \<open>
  C8. In all three builders the chunks that are joined are: the fixed leading empty chunk
  (hierarchical names only), then those of prefix, application name, environment and
  stack name, in this order, whose flag is set and whose value is not empty (\<open>kept\<close>),
  then the marker and the name (or the trailing empty chunk). An included segment that
  is empty is therefore left out, not rendered as an empty component. The bucket name
  has no stack segment.
\<close>

theorem empty_segments_omitted:
  assumes "fst (get_global_prefix c) = Inr p" and "fst (get_application_name c) = Inr a"
    and "fst (get_environment c) = Inr e" and "fst (get_stack_name c) = Inr s"
  shows "fst (build_legacy_ssm_param_name c name ip ia ie is) =
           Inr (join ''-'' (kept [(ip, p), (ia, a), (ie, e), (is, s)] @ [''ssm'', name]))
    \<and> fst (build_ssm_param_name c (Some name) ip ia ie is) =
           Inr (join ''/'' ([''''] @ kept [(ip, p), (ia, a), (ie, e), (is, s)] @ [''ssm'', name]))
    \<and> fst (build_ssm_param_name c None ip ia ie is) =
           Inr (join ''/'' ([''''] @ kept [(ip, p), (ia, a), (ie, e), (is, s)] @ ['''']))
    \<and> fst (build_bucket_name c name ip ia ie) =
           Inr (join ''-'' (kept [(ip, p), (ia, a), (ie, e)] @ [name]))"
  using legacy_chunks [OF assms] ssm_chunks [OF assms] bucket_chunks [OF assms(1-3)]
  by simp

theorem empty_segments_omitted_witness:
  "fst (build_legacy_ssm_param_name (init ''test'' (map_of [(''GLOBAL_PREFIX'', ''test''), (''STACK_NAME'', ''stack-a'')]) None None)
         ''param1'' True True True True) = Inr ''test-stack-a-ssm-param1''
   \<and> fst (build_ssm_param_name (init ''test'' (map_of [(''GLOBAL_PREFIX'', ''test''), (''STACK_NAME'', ''stack-a'')]) None None)
         (Some ''param1'') True True True True) = Inr ''/test/stack-a/ssm/param1''
   \<and> fst (build_ssm_param_name (init ''test'' (map_of [(''GLOBAL_PREFIX'', ''test''), (''STACK_NAME'', ''stack-a'')]) None None)
         None True True True True) = Inr ''/test/stack-a/''
   \<and> fst (build_bucket_name (init ''test'' (map_of [(''GLOBAL_PREFIX'', ''test''), (''STACK_NAME'', ''stack-a'')]) None None)
         ''param1'' True True True) = Inr ''test-param1''"
proof -
  let ?c = "init ''test'' (map_of [(''GLOBAL_PREFIX'', ''test''), (''STACK_NAME'', ''stack-a'')]) None None"
  have "fst (get_global_prefix ?c) = Inr ''test''" "fst (get_application_name ?c) = Inr ''''"
    "fst (get_environment ?c) = Inr ''''" "fst (get_stack_name ?c) = Inr ''stack-a''"
    by (simp_all add: segment_getters_fst eval_simps)
  from empty_segments_omitted [OF this, of "''param1''" True True True True]
  show ?thesis by (simp add: kept_def)
qed

subsection \<open>Enumerated domains and boolean coercion\<close>

lemma validations_table:
  "validations ''DEBUG_MODE'' = Some [''on'', ''off'', ''true'', ''false'', ''yes'', ''no'']"
  "validations ''SAFE_MODE'' = Some [''on'', ''off'', ''true'', ''false'', ''yes'', ''no'']"
  "validations ''FIPS_MODE'' = Some [''on'', ''off'', ''true'', ''false'', ''yes'', ''no'']"
  "validations ''ENABLE_NOTIFICATIONS'' = Some [''on'', ''off'', ''true'', ''false'', ''yes'', ''no'']"
  "validations ''LOG_ARCHIVE_MODE'' = Some [''s3'', ''stdout'']"
  by (simp_all add: validations_def on_off_def)

lemma validations_dom:
  "dom validations =
     {''DEBUG_MODE'', ''ENABLE_NOTIFICATIONS'', ''FIPS_MODE'', ''LOG_ARCHIVE_MODE'', ''SAFE_MODE''}"
  by (simp add: validations_def dom_map_of_conv_image_fst)

text \<open>
  C5. The names with a registered domain are \<^verbatim>\<open>DEBUG_MODE\<close>, \<^verbatim>\<open>SAFE_MODE\<close>,
  \<^verbatim>\<open>FIPS_MODE\<close>, \<^verbatim>\<open>ENABLE_NOTIFICATIONS\<close> (on, off, true, false, yes, no) and
  \<^verbatim>\<open>LOG_ARCHIVE_MODE\<close> (s3, stdout), and no others. For such a name whose lookup
  yields \<open>v0\<close>, let \<open>v\<close> be \<open>v0\<close>, lower-cased when \<^verbatim>\<open>to_lower\<close> or
  \<^verbatim>\<open>bool_coerce\<close> is set: \<open>val\<close> fails with \<open>InvalidConfigurationValue\<close>, carrying
  the name and the accepted values, when \<open>v\<close> is outside the domain, and returns a
  value when \<open>v\<close> is in it.
\<close>

theorem val_enumerated_domain:
  assumes "validations name = Some vs" and "get_val c name fallback = Inr v0"
  shows "val c name to_lower bool_coerce fallback =
           (let v = (if to_lower \<or> bool_coerce then lower v0 else v0) in
            if v \<in> set vs
            then Inr (if bool_coerce then Bool (v \<in> set [''on'', ''true'', ''yes'']) else Str v)
            else Inl (InvalidConfigurationValue name vs))
    \<and> dom validations =
         {''DEBUG_MODE'', ''ENABLE_NOTIFICATIONS'', ''FIPS_MODE'', ''LOG_ARCHIVE_MODE'', ''SAFE_MODE''}
    \<and> validations ''DEBUG_MODE'' = Some [''on'', ''off'', ''true'', ''false'', ''yes'', ''no'']
    \<and> validations ''SAFE_MODE'' = Some [''on'', ''off'', ''true'', ''false'', ''yes'', ''no'']
    \<and> validations ''FIPS_MODE'' = Some [''on'', ''off'', ''true'', ''false'', ''yes'', ''no'']
    \<and> validations ''ENABLE_NOTIFICATIONS'' = Some [''on'', ''off'', ''true'', ''false'', ''yes'', ''no'']
    \<and> validations ''LOG_ARCHIVE_MODE'' = Some [''s3'', ''stdout'']"
proof -
  have "name \<in> dom validations"
    using assms(1) by (simp add: dom_def)
  then have "val c name to_lower bool_coerce fallback =
           (let v = (if to_lower \<or> bool_coerce then lower v0 else v0) in
            if v \<in> set vs
            then Inr (if bool_coerce then Bool (v \<in> set [''on'', ''true'', ''yes'']) else Str v)
            else Inl (InvalidConfigurationValue name vs))"
    using assms by (simp add: val_def validate_val_def Let_def)
  moreover have "dom validations =
         {''DEBUG_MODE'', ''ENABLE_NOTIFICATIONS'', ''FIPS_MODE'', ''LOG_ARCHIVE_MODE'', ''SAFE_MODE''}"
    by (rule validations_dom)
  ultimately show ?thesis
    by (simp only: validations_table simp_thms)
qed

theorem val_enumerated_domain_witness:
  "val (init ''test'' (map_of [(''LOG_ARCHIVE_MODE'', ''S3''), (''DEBUG_MODE'', ''nonsense'')]) None None)
       ''LOG_ARCHIVE_MODE'' True False None = Inr (Str ''s3'')
   \<and> val (init ''test'' (map_of [(''LOG_ARCHIVE_MODE'', ''S3''), (''DEBUG_MODE'', ''nonsense'')]) None None)
       ''LOG_ARCHIVE_MODE'' False False None
       = Inl (InvalidConfigurationValue ''LOG_ARCHIVE_MODE'' [''s3'', ''stdout''])
   \<and> val (init ''test'' (map_of [(''LOG_ARCHIVE_MODE'', ''S3''), (''DEBUG_MODE'', ''nonsense'')]) None None)
       ''DEBUG_MODE'' False True None
       = Inl (InvalidConfigurationValue ''DEBUG_MODE'' [''on'', ''off'', ''true'', ''false'', ''yes'', ''no''])"
proof -
  let ?c = "init ''test'' (map_of [(''LOG_ARCHIVE_MODE'', ''S3''), (''DEBUG_MODE'', ''nonsense'')]) None None"
  have g1: "get_val ?c ''LOG_ARCHIVE_MODE'' None = Inr ''S3''"
    and g2: "get_val ?c ''DEBUG_MODE'' None = Inr ''nonsense''"
    by (simp_all add: get_val_def init_def)
  note t1 = val_enumerated_domain [OF validations_table(5) g1]
  note t2 = val_enumerated_domain [OF validations_table(1) g2]
  show ?thesis
    using t1 [of True False] t1 [of False False] t2 [of False True]
    by (simp add: Let_def lower_def lower_char_def)
qed

text \<open>
  C6. When the lookup yields \<open>v0\<close> and the validation, if the name has one, accepts
  the lower-cased \<open>v0\<close>, a call of \<open>val\<close> with \<^verbatim>\<open>bool_coerce\<close> returns a boolean:
  true exactly when the lower-cased string is \<^verbatim>\<open>on\<close>, \<^verbatim>\<open>true\<close> or \<^verbatim>\<open>yes\<close>,
  false for any other string. The coercion raises nothing.
\<close>

theorem val_bool_coerce:
  assumes "get_val c name fallback = Inr v0"
    and "case validations name of None \<Rightarrow> True | Some vs \<Rightarrow> lower v0 \<in> set vs"
  shows "val c name to_lower True fallback = Inr (Bool (lower v0 \<in> set [''on'', ''true'', ''yes'']))"
  using assms
  by (auto simp: val_def validate_val_def Let_def dom_def split: option.splits)

theorem val_bool_coerce_witness:
  "val (init ''test'' (map_of [(''DEBUG_MODE'', ''ON''), (''FEATURE'', ''Maybe'')]) None None)
       ''DEBUG_MODE'' False True None = Inr (Bool True)
   \<and> val (init ''test'' (map_of [(''DEBUG_MODE'', ''ON''), (''FEATURE'', ''Maybe'')]) None None)
       ''SAFE_MODE'' False True None = Inr (Bool False)
   \<and> val (init ''test'' (map_of [(''DEBUG_MODE'', ''ON''), (''FEATURE'', ''Maybe'')]) None None)
       ''FEATURE'' False True None = Inr (Bool False)"
proof -
  let ?c = "init ''test'' (map_of [(''DEBUG_MODE'', ''ON''), (''FEATURE'', ''Maybe'')]) None None"
  have g1: "get_val ?c ''DEBUG_MODE'' None = Inr ''ON''"
    and g2: "get_val ?c ''SAFE_MODE'' None = Inr ''off''"
    and g3: "get_val ?c ''FEATURE'' None = Inr ''Maybe''"
    by (simp_all add: get_val_def init_def defaults_def)
  have v1: "case validations ''DEBUG_MODE'' of None \<Rightarrow> True | Some vs \<Rightarrow> lower ''ON'' \<in> set vs"
    and v2: "case validations ''SAFE_MODE'' of None \<Rightarrow> True | Some vs \<Rightarrow> lower ''off'' \<in> set vs"
    and v3: "case validations ''FEATURE'' of None \<Rightarrow> True | Some vs \<Rightarrow> lower ''Maybe'' \<in> set vs"
    by (simp_all add: validations_def on_off_def lower_def lower_char_def)
  show ?thesis
    using val_bool_coerce [OF g1 v1, of False] val_bool_coerce [OF g2 v2, of False]
      val_bool_coerce [OF g3 v3, of False]
    by (simp add: lower_def lower_char_def)
qed

subsection \<open>FIPS mode\<close>

lemma get_aws_region_fst:
  "fst (get_aws_region c) =
     (case aws_region c of Some v \<Rightarrow> Inr v | None \<Rightarrow> val_str c ''AWS_REGION'' True None)"
  by (simp add: get_aws_region_def split: option.splits sum.splits)

lemma get_aws_region_run:
  "fst (get_aws_region c) = Inr r \<Longrightarrow> get_aws_region c = (Inr r, c\<lparr>aws_region := Some r\<rparr>)"
  by (auto simp: get_aws_region_def split: option.splits sum.splits)

lemma get_aws_region_missing:
  assumes "aws_region c = None" and "configured c ''AWS_REGION'' = None"
  shows "get_aws_region c = (Inl (MissingConfiguration ''AWS_REGION''), c)"
  using assms by (simp add: get_aws_region_def val_str_configured)

lemma get_fips_mode_uncached:
  assumes "fips_mode c = None" and "fst (get_aws_region c) = Inr r"
  shows "fst (get_fips_mode digits c) =
           val_bool c ''FIPS_MODE'' (Some (if re_search_gov digits r then ''on'' else ''off''))"
  using assms(1) get_aws_region_run [OF assms(2)]
  by (simp add: get_fips_mode_def and_then_def Let_def split: sum.splits)

lemma get_fips_mode_run:
  assumes "fips_mode c = None" and "fst (get_aws_region c) = Inr r"
    and "fst (get_fips_mode digits c) = Inr b"
  shows "get_fips_mode digits c = (Inr b, c\<lparr>aws_region := Some r, fips_mode := Some b\<rparr>)"
  using assms(1,3) get_aws_region_run [OF assms(2)]
  by (auto simp: get_fips_mode_def and_then_def Let_def split: sum.splits if_splits)

text \<open>
  On ASCII text the pattern between the anchors accepts exactly the region codes of the
  form \<^verbatim>\<open>us-gov-(west|east)-<digits>\<close>; the search accepts them also when a line feed
  follows.
\<close>

lemma is_ascii_drop: "is_ascii s \<Longrightarrow> is_ascii (drop n s)"
  unfolding is_ascii_def list_all_iff by (auto dest: in_set_dropD)

lemma gov_region_form_iff:
  "gov_region_form s \<longleftrightarrow>
     (take 12 s = ''us-gov-west-'' \<or> take 12 s = ''us-gov-east-'')
     \<and> drop 12 s \<noteq> [] \<and> list_all ascii_digit (drop 12 s)"
proof
  assume "gov_region_form s"
  then obtain ds where "ds \<noteq> []" "list_all ascii_digit ds"
    and "s = ''us-gov-west-'' @ ds \<or> s = ''us-gov-east-'' @ ds"
    unfolding gov_region_form_def by blast
  then show "(take 12 s = ''us-gov-west-'' \<or> take 12 s = ''us-gov-east-'')
     \<and> drop 12 s \<noteq> [] \<and> list_all ascii_digit (drop 12 s)"
    by auto
next
  assume b: "(take 12 s = ''us-gov-west-'' \<or> take 12 s = ''us-gov-east-'')
     \<and> drop 12 s \<noteq> [] \<and> list_all ascii_digit (drop 12 s)"
  have "s = take 12 s @ drop 12 s" by simp
  with b show "gov_region_form s"
    unfolding gov_region_form_def by metis
qed

lemma gov_region_body_ascii:
  assumes "digits_on_ascii digits" and "is_ascii s"
  shows "gov_region_body digits s \<longleftrightarrow> gov_region_form s"
proof -
  have "digits (drop 12 s) = (drop 12 s \<noteq> [] \<and> list_all ascii_digit (drop 12 s))"
    using assms(1) is_ascii_drop [OF assms(2), of 12] by (simp add: digits_on_ascii_def)
  then show ?thesis
    by (simp add: gov_region_body_def gov_region_form_iff)
qed

lemma re_search_gov_ascii:
  assumes "digits_on_ascii digits" and "is_ascii r"
    and "\<not> (r \<noteq> [] \<and> last r = CHR 0x0A)"
  shows "re_search_gov digits r \<longleftrightarrow> gov_region_form r"
  using assms(3) gov_region_body_ascii [OF assms(1,2)] by (auto simp: re_search_gov_def)

lemma lower_on_off: "lower ''on'' = ''on''" "lower ''off'' = ''off''"
  by (simp_all add: lower_def lower_char_def)

lemma validations_FIPS_MODE: "validations ''FIPS_MODE'' = Some on_off"
  by (simp add: validations_def)

lemma sample_digit_run_ascii:
  "is_ascii s \<Longrightarrow> sample_digit_run s = list_all ascii_digit s"
proof (induction s rule: sample_digit_run.induct)
  case (3 a b s)
  from "3.prems" have a: "of_char a < (128::nat)" and rest: "is_ascii (b # s)"
    by (simp_all add: is_ascii_def)
  from a have "a \<noteq> CHR 0xD9" by auto
  with 3 rest show ?case by (auto simp: is_ascii_def)
qed simp_all

lemma sample_digits_on_ascii: "digits_on_ascii sample_digits"
  by (simp add: digits_on_ascii_def sample_digits_def sample_digit_run_ascii)

lemmas getter_eval_simps = get_aws_region_fst eval_simps

text \<open>
  C4 (as amended). Let the digit class agree with the ASCII digits on ASCII text, and
  take an instance whose FIPS mode is not cached yet and whose region getter returns
  \<open>r\<close>. When \<^verbatim>\<open>FIPS_MODE\<close> is in none of the four mappings, and \<open>r\<close> is ASCII text
  that does not end in a line feed, \<open>get_fips_mode\<close> returns true exactly when \<open>r\<close> has
  the form \<^verbatim>\<open>us-gov-(west|east)-<digits>\<close> with digits \<^verbatim>\<open>0\<close> to \<^verbatim>\<open>9\<close>. When
  \<^verbatim>\<open>FIPS_MODE\<close> is set to a value whose lower-cased form is in its domain, the result
  is the coercion of that value, whatever the region is.
\<close>

theorem fips_mode_resolution:
  assumes "digits_on_ascii digits" and "fips_mode c = None"
    and "fst (get_aws_region c) = Inr r"
  shows "(configured c ''FIPS_MODE'' = None \<and> is_ascii r \<and> \<not> (r \<noteq> [] \<and> last r = CHR 0x0A)
            \<longrightarrow> fst (get_fips_mode digits c) = Inr (gov_region_form r))
    \<and> (\<forall>v. configured c ''FIPS_MODE'' = Some v \<and> lower v \<in> set on_off
            \<longrightarrow> fst (get_fips_mode digits c) = Inr (lower v \<in> set [''on'', ''true'', ''yes'']))"
proof (intro conjI allI impI)
  assume a: "configured c ''FIPS_MODE'' = None \<and> is_ascii r
    \<and> \<not> (r \<noteq> [] \<and> last r = CHR 0x0A)"
  then have "re_search_gov digits r \<longleftrightarrow> gov_region_form r"
    using re_search_gov_ascii [OF assms(1)] by blast
  with a show "fst (get_fips_mode digits c) = Inr (gov_region_form r)"
    by (simp add: get_fips_mode_uncached [OF assms(2,3)] val_bool_configured
        validations_FIPS_MODE lower_on_off on_off_def)
next
  fix v
  assume "configured c ''FIPS_MODE'' = Some v \<and> lower v \<in> set on_off"
  then show "fst (get_fips_mode digits c) = Inr (lower v \<in> set [''on'', ''true'', ''yes''])"
    by (simp add: get_fips_mode_uncached [OF assms(2,3)] val_bool_configured
        validations_FIPS_MODE)
qed

theorem fips_mode_resolution_witness:
  "fst (get_fips_mode sample_digits
          (init ''test'' (map_of [(''AWS_REGION'', ''us-gov-west-1'')]) None None)) = Inr True
   \<and> fst (get_fips_mode sample_digits
          (init ''test'' (map_of [(''AWS_REGION'', ''US-GOV-EAST-1'')]) None None)) = Inr True
   \<and> fst (get_fips_mode sample_digits
          (init ''test'' (map_of [(''AWS_REGION'', ''us-east-1'')]) None None)) = Inr False
   \<and> fst (get_fips_mode sample_digits
          (init ''test'' (map_of [(''AWS_REGION'', ''us-east-1''), (''FIPS_MODE'', ''ON'')])
             None None)) = Inr True
   \<and> fst (get_fips_mode sample_digits
          (init ''test'' (map_of [(''AWS_REGION'', ''us-gov-west-1''), (''FIPS_MODE'', ''no'')])
             None None)) = Inr False"
proof -
  let ?c1 = "init ''test'' (map_of [(''AWS_REGION'', ''us-gov-west-1'')]) None None"
  let ?c2 = "init ''test'' (map_of [(''AWS_REGION'', ''US-GOV-EAST-1'')]) None None"
  let ?c3 = "init ''test'' (map_of [(''AWS_REGION'', ''us-east-1'')]) None None"
  let ?c4 = "init ''test'' (map_of [(''AWS_REGION'', ''us-east-1''), (''FIPS_MODE'', ''ON'')]) None None"
  let ?c5 = "init ''test'' (map_of [(''AWS_REGION'', ''us-gov-west-1''), (''FIPS_MODE'', ''no'')]) None None"
  have f: "fips_mode ?c1 = None" "fips_mode ?c2 = None" "fips_mode ?c3 = None"
    "fips_mode ?c4 = None" "fips_mode ?c5 = None"
    by (simp_all add: init_def)
  have r: "fst (get_aws_region ?c1) = Inr ''us-gov-west-1''"
    "fst (get_aws_region ?c2) = Inr ''us-gov-east-1''"
    "fst (get_aws_region ?c3) = Inr ''us-east-1''"
    "fst (get_aws_region ?c4) = Inr ''us-east-1''"
    "fst (get_aws_region ?c5) = Inr ''us-gov-west-1''"
    by (simp_all add: getter_eval_simps)
  have k: "configured ?c1 ''FIPS_MODE'' = None" "configured ?c2 ''FIPS_MODE'' = None"
    "configured ?c3 ''FIPS_MODE'' = None" "configured ?c4 ''FIPS_MODE'' = Some ''ON''"
    "configured ?c5 ''FIPS_MODE'' = Some ''no''"
    by (simp_all add: eval_simps)
  have g: "gov_region_form ''us-gov-west-1''" "gov_region_form ''us-gov-east-1''"
    "\<not> gov_region_form ''us-east-1''"
    by (simp_all add: gov_region_form_iff ascii_digit_def)
  have n: "is_ascii ''us-gov-west-1''
      \<and> \<not> (''us-gov-west-1'' \<noteq> [] \<and> last ''us-gov-west-1'' = CHR 0x0A)"
    "is_ascii ''us-gov-east-1''
      \<and> \<not> (''us-gov-east-1'' \<noteq> [] \<and> last ''us-gov-east-1'' = CHR 0x0A)"
    "is_ascii ''us-east-1'' \<and> \<not> (''us-east-1'' \<noteq> [] \<and> last ''us-east-1'' = CHR 0x0A)"
    by (simp_all add: is_ascii_def)
  have l: "lower ''ON'' \<in> set on_off" "lower ''no'' \<in> set on_off"
    "lower ''ON'' \<in> set [''on'', ''true'', ''yes'']"
    "lower ''no'' \<notin> set [''on'', ''true'', ''yes'']"
    by (simp_all add: lower_def lower_char_def on_off_def)
  note d = sample_digits_on_ascii
  note t1 = fips_mode_resolution [OF d f(1) r(1), THEN conjunct1, THEN mp, OF conjI [OF k(1) n(1)]]
  note t2 = fips_mode_resolution [OF d f(2) r(2), THEN conjunct1, THEN mp, OF conjI [OF k(2) n(2)]]
  note t3 = fips_mode_resolution [OF d f(3) r(3), THEN conjunct1, THEN mp, OF conjI [OF k(3) n(3)]]
  note t4 = fips_mode_resolution [OF d f(4) r(4), THEN conjunct2, THEN spec, THEN mp,
      OF conjI [OF k(4) l(1)]]
  note t5 = fips_mode_resolution [OF d f(5) r(5), THEN conjunct2, THEN spec, THEN mp,
      OF conjI [OF k(5) l(2)]]
  show ?thesis
    unfolding t1 t2 t3 t4 t5 using g l(3,4) by simp
qed

text \<open>
  The claim as first stated fails in three places. An explicit \<^verbatim>\<open>FIPS_MODE=on\<close> does
  not win when \<^verbatim>\<open>AWS_REGION\<close> is missing: the call fails. A region that is
  \<^verbatim>\<open>us-gov-west-1\<close> followed by a line feed is not of the form
  \<^verbatim>\<open>us-gov-(west|east)-<digits>\<close>, yet the result is true. And so it is for
  \<^verbatim>\<open>us-gov-west-\<close> followed by the Arabic-Indic digit one (U+0661, the bytes
  \<^verbatim>\<open>D9 A1\<close>), which \<^verbatim>\<open>\d\<close> accepts.
\<close>

theorem fips_mode_counterexample:
  "fst (get_fips_mode sample_digits (init ''test'' (map_of [(''FIPS_MODE'', ''on'')]) None None))
     = Inl (MissingConfiguration ''AWS_REGION'')
   \<and> fst (get_fips_mode sample_digits
          (init ''test'' (map_of [(''AWS_REGION'', ''us-gov-west-1'' @ [CHR 0x0A])]) None None))
     = Inr True
   \<and> \<not> gov_region_form (''us-gov-west-1'' @ [CHR 0x0A])
   \<and> fst (get_fips_mode sample_digits
          (init ''test'' (map_of [(''AWS_REGION'', ''us-gov-west-'' @ [CHR 0xD9, CHR 0xA1])])
             None None))
     = Inr True
   \<and> \<not> gov_region_form (''us-gov-west-'' @ [CHR 0xD9, CHR 0xA1])"
proof -
  let ?c1 = "init ''test'' (map_of [(''FIPS_MODE'', ''on'')]) None None"
  let ?r2 = "''us-gov-west-1'' @ [CHR 0x0A]"
  let ?c2 = "init ''test'' (map_of [(''AWS_REGION'', ?r2)]) None None"
  let ?r3 = "''us-gov-west-'' @ [CHR 0xD9, CHR 0xA1]"
  let ?c3 = "init ''test'' (map_of [(''AWS_REGION'', ?r3)]) None None"
  have "get_aws_region ?c1 = (Inl (MissingConfiguration ''AWS_REGION''), ?c1)"
    by (rule get_aws_region_missing) (simp_all add: eval_simps)
  then have 1: "fst (get_fips_mode sample_digits ?c1) = Inl (MissingConfiguration ''AWS_REGION'')"
    by (simp add: get_fips_mode_def and_then_def init_def)
  have "fips_mode ?c2 = None" by (simp add: init_def)
  moreover have "fst (get_aws_region ?c2) = Inr ?r2"
    by (simp add: getter_eval_simps)
  ultimately have "fst (get_fips_mode sample_digits ?c2) =
      val_bool ?c2 ''FIPS_MODE'' (Some (if re_search_gov sample_digits ?r2 then ''on'' else ''off''))"
    by (rule get_fips_mode_uncached)
  moreover have "re_search_gov sample_digits ?r2"
    by (simp add: re_search_gov_def gov_region_body_def sample_digits_def ascii_digit_def)
  ultimately have 2: "fst (get_fips_mode sample_digits ?c2) = Inr True"
    by (simp add: eval_simps)
  have 3: "\<not> gov_region_form ?r2"
    by (simp add: gov_region_form_iff ascii_digit_def)
  have "fips_mode ?c3 = None" by (simp add: init_def)
  moreover have "fst (get_aws_region ?c3) = Inr ?r3"
    by (simp add: getter_eval_simps)
  ultimately have "fst (get_fips_mode sample_digits ?c3) =
      val_bool ?c3 ''FIPS_MODE'' (Some (if re_search_gov sample_digits ?r3 then ''on'' else ''off''))"
    by (rule get_fips_mode_uncached)
  moreover have "re_search_gov sample_digits ?r3"
    by (simp add: re_search_gov_def gov_region_body_def sample_digits_def ascii_digit_def)
  ultimately have 4: "fst (get_fips_mode sample_digits ?c3) = Inr True"
    by (simp add: eval_simps)
  have 5: "\<not> gov_region_form ?r3"
    by (simp add: gov_region_form_iff ascii_digit_def)
  from 1 2 3 4 5 show ?thesis by simp
qed

lemma configured_emptied:
  "configured (with_mappings c Map.empty Map.empty Map.empty) name = defaults name"
  by (simp add: configured_def caller_overrides_def with_mappings_def split: option.splits)

lemma with_mappings_slots [simp]:
  "application_name (with_mappings c e ov lov) = application_name c"
  "debug_mode (with_mappings c e ov lov) = debug_mode c"
  "log_level (with_mappings c e ov lov) = log_level c"
  "log_path (with_mappings c e ov lov) = log_path c"
  "safe_mode (with_mappings c e ov lov) = safe_mode c"
  "fips_mode (with_mappings c e ov lov) = fips_mode c"
  "log_archive_mode (with_mappings c e ov lov) = log_archive_mode c"
  "aws_region (with_mappings c e ov lov) = aws_region c"
  "log_bucket (with_mappings c e ov lov) = log_bucket c"
  "log_kms_key_id (with_mappings c e ov lov) = log_kms_key_id c"
  "global_prefix (with_mappings c e ov lov) = global_prefix c"
  "environment (with_mappings c e ov lov) = environment c"
  "stack_name (with_mappings c e ov lov) = stack_name c"
  "notification_arn (with_mappings c e ov lov) = notification_arn c"
  by (simp_all add: with_mappings_def)

text \<open>
  C10 (as amended). On an instance where neither the FIPS mode nor the region is cached
  (every new instance is one) and \<^verbatim>\<open>AWS_REGION\<close> is in none of the four mappings,
  \<open>get_fips_mode\<close> fails with \<open>MissingConfiguration\<close> for \<^verbatim>\<open>AWS_REGION\<close> and leaves
  the instance as it was, whatever \<^verbatim>\<open>FIPS_MODE\<close> is set to and whatever the digit
  class is: the region is resolved first.
\<close>

theorem fips_mode_needs_region:
  assumes "fips_mode c = None" and "aws_region c = None"
    and "configured c ''AWS_REGION'' = None"
  shows "get_fips_mode digits c = (Inl (MissingConfiguration ''AWS_REGION''), c)"
  using assms(1) get_aws_region_missing [OF assms(2,3)]
  by (simp add: get_fips_mode_def and_then_def)

theorem fips_mode_needs_region_witness:
  "get_fips_mode sample_digits
     (init ''test'' (map_of [(''RUN_MODE'', ''local''), (''FIPS_MODE'', ''on'')]) None None)
     = (Inl (MissingConfiguration ''AWS_REGION''),
        init ''test'' (map_of [(''RUN_MODE'', ''local''), (''FIPS_MODE'', ''on'')]) None None)
   \<and> configured (init ''test'' (map_of [(''RUN_MODE'', ''local''), (''FIPS_MODE'', ''on'')]) None None)
        ''FIPS_MODE'' = Some ''on''"
proof -
  let ?c = "init ''test'' (map_of [(''RUN_MODE'', ''local''), (''FIPS_MODE'', ''on'')]) None None"
  have "fips_mode ?c = None" "aws_region ?c = None" "configured ?c ''AWS_REGION'' = None"
    by (simp_all add: eval_simps)
  from fips_mode_needs_region [OF this] show ?thesis
    by (simp add: eval_simps)
qed

text \<open>
  The claim as first stated is about every instance on which \<^verbatim>\<open>AWS_REGION\<close> is in no
  mapping. A cached region, or a cached FIPS mode, is returned without a look at the
  mappings: after a call of \<open>get_aws_region\<close> (or of \<open>get_fips_mode\<close>) on an instance
  with a region, and the mappings emptied since, \<^verbatim>\<open>AWS_REGION\<close> is in no mapping and
  \<open>get_fips_mode\<close> returns a value.
\<close>

theorem fips_mode_cached_region_counterexample:
  "configured
     (with_mappings
        (snd (get_aws_region (init ''test'' (map_of [(''AWS_REGION'', ''us-gov-west-1'')]) None None)))
        Map.empty Map.empty Map.empty) ''AWS_REGION'' = None
   \<and> fst (get_fips_mode sample_digits
       (with_mappings
          (snd (get_aws_region (init ''test'' (map_of [(''AWS_REGION'', ''us-gov-west-1'')]) None None)))
          Map.empty Map.empty Map.empty)) = Inr True
   \<and> configured
     (with_mappings
        (snd (get_fips_mode sample_digits
                (init ''test'' (map_of [(''AWS_REGION'', ''us-east-1'')]) None None)))
        Map.empty Map.empty Map.empty) ''AWS_REGION'' = None
   \<and> fst (get_fips_mode sample_digits
       (with_mappings
          (snd (get_fips_mode sample_digits
                  (init ''test'' (map_of [(''AWS_REGION'', ''us-east-1'')]) None None)))
          Map.empty Map.empty Map.empty)) = Inr False"
proof -
  let ?c0 = "init ''test'' (map_of [(''AWS_REGION'', ''us-gov-west-1'')]) None None"
  let ?c1 = "with_mappings (snd (get_aws_region ?c0)) Map.empty Map.empty Map.empty"
  let ?d0 = "init ''test'' (map_of [(''AWS_REGION'', ''us-east-1'')]) None None"
  let ?d1 = "with_mappings (snd (get_fips_mode sample_digits ?d0)) Map.empty Map.empty Map.empty"
  have absent: "configured (with_mappings c Map.empty Map.empty Map.empty) ''AWS_REGION'' = None"
    "configured (with_mappings c Map.empty Map.empty Map.empty) ''FIPS_MODE'' = None" for c
    by (simp_all add: configured_emptied defaults_def)
  have r0: "fst (get_aws_region ?c0) = Inr ''us-gov-west-1''"
    by (simp add: getter_eval_simps)
  have s0: "snd (get_aws_region ?c0) = ?c0\<lparr>aws_region := Some ''us-gov-west-1''\<rparr>"
    using get_aws_region_run [OF r0] by simp
  have slots: "fips_mode (snd (get_aws_region ?c0)) = None"
    "aws_region (snd (get_aws_region ?c0)) = Some ''us-gov-west-1''"
    unfolding s0 by (simp_all add: init_def)
  have "fips_mode ?c1 = None"
    by (simp only: with_mappings_slots slots)
  moreover have "fst (get_aws_region ?c1) = Inr ''us-gov-west-1''"
    by (simp only: get_aws_region_fst with_mappings_slots slots option.case)
  ultimately have "fst (get_fips_mode sample_digits ?c1) =
      val_bool ?c1 ''FIPS_MODE''
        (Some (if re_search_gov sample_digits ''us-gov-west-1'' then ''on'' else ''off''))"
    by (rule get_fips_mode_uncached)
  moreover have "re_search_gov sample_digits ''us-gov-west-1''"
    by (simp add: re_search_gov_def gov_region_body_def sample_digits_def ascii_digit_def)
  ultimately have 1: "fst (get_fips_mode sample_digits ?c1) = Inr True"
    by (simp add: val_bool_configured absent validations_FIPS_MODE lower_on_off on_off_def)
  have f0: "fips_mode ?d0 = None" by (simp add: init_def)
  have q0: "fst (get_aws_region ?d0) = Inr ''us-east-1''"
    by (simp add: getter_eval_simps)
  have "fst (get_fips_mode sample_digits ?d0) =
      val_bool ?d0 ''FIPS_MODE''
        (Some (if re_search_gov sample_digits ''us-east-1'' then ''on'' else ''off''))"
    using f0 q0 by (rule get_fips_mode_uncached)
  moreover have "\<not> re_search_gov sample_digits ''us-east-1''"
    by (simp add: re_search_gov_def gov_region_body_def)
  ultimately have v0: "fst (get_fips_mode sample_digits ?d0) = Inr False"
    by (simp add: eval_simps)
  have "fips_mode (snd (get_fips_mode sample_digits ?d0)) = Some False"
    using get_fips_mode_run [OF f0 q0 v0] by simp
  then have 2: "fst (get_fips_mode sample_digits ?d1) = Inr False"
    by (simp add: get_fips_mode_def)
  from 1 2 show ?thesis by (simp add: absent)
qed

subsection \<open>The archive key\<close>

lemma get_log_archive_mode_fst:
  "fst (get_log_archive_mode c) =
     (case log_archive_mode c of Some v \<Rightarrow> Inr v
      | None \<Rightarrow> val_str c ''LOG_ARCHIVE_MODE'' True None)"
  by (simp add: get_log_archive_mode_def split: option.splits sum.splits)

lemma get_log_archive_mode_uncached:
  assumes "log_archive_mode c = None" and "configured c ''LOG_ARCHIVE_MODE'' = Some m0"
  shows "fst (get_log_archive_mode c) =
           (if lower m0 \<in> set [''s3'', ''stdout''] then Inr (lower m0)
            else Inl (InvalidConfigurationValue ''LOG_ARCHIVE_MODE'' [''s3'', ''stdout'']))"
  using assms by (simp add: get_log_archive_mode_fst val_str_configured validations_table)

lemma get_log_archive_mode_run:
  "fst (get_log_archive_mode c) = Inr m \<Longrightarrow>
     get_log_archive_mode c = (Inr m, c\<lparr>log_archive_mode := Some m\<rparr>)"
  "fst (get_log_archive_mode c) = Inl e \<Longrightarrow> get_log_archive_mode c = (Inl e, c)"
  by (auto simp: get_log_archive_mode_def split: option.splits sum.splits)

lemma get_log_kms_key_id_uncached:
  assumes "log_kms_key_id c = None"
  shows "fst (get_log_kms_key_id c) =
     (case fst (get_log_archive_mode c) of
        Inl e \<Rightarrow> Inl e
      | Inr m \<Rightarrow> if m \<noteq> ''s3'' then Inl InvalidState else val_str c ''LOG_KMS_KEY_ID'' False None)"
proof (cases "fst (get_log_archive_mode c)")
  case (Inl e)
  with assms show ?thesis
    by (simp add: get_log_kms_key_id_def and_then_def get_log_archive_mode_run(2) [OF Inl])
next
  case (Inr m)
  with assms show ?thesis
    by (simp add: get_log_kms_key_id_def and_then_def get_log_archive_mode_run(1) [OF Inr]
        split: sum.splits)
qed

lemma kms_cache_ok_key_cached:
  assumes "kms_cache_ok c" and "log_kms_key_id c = Some k"
  shows "fst (get_log_archive_mode c) = Inr ''s3''"
  using assms by (simp add: kms_cache_ok_def get_log_archive_mode_fst)

lemma validations_LOG_KMS_KEY_ID: "validations ''LOG_KMS_KEY_ID'' = None"
  by (simp add: validations_def)

lemma kms_cache_ok_init: "kms_cache_ok (init name e ov lov)"
  by (simp add: kms_cache_ok_def init_def)

text \<open>
  C7 (as amended). On an instance where a cached key goes with a cached mode
  \<^verbatim>\<open>s3\<close> (\<open>kms_cache_ok\<close>, true of every new instance):
  \<^item> when \<open>get_log_archive_mode\<close> returns a value other than \<^verbatim>\<open>s3\<close>,
    \<open>get_log_kms_key_id\<close> fails with \<open>InvalidState\<close>;
  \<^item> when \<open>get_log_archive_mode\<close> fails, \<open>get_log_kms_key_id\<close> fails with the same
    error;
  \<^item> when \<open>get_log_archive_mode\<close> returns \<^verbatim>\<open>s3\<close>, the key is not cached and
    \<^verbatim>\<open>LOG_KMS_KEY_ID\<close> is in one of the mappings, \<open>get_log_kms_key_id\<close> returns the
    key of the first mapping that has it;
  \<^item> an archive mode that is not cached resolves to the lower-cased
    \<^verbatim>\<open>LOG_ARCHIVE_MODE\<close> when that is \<^verbatim>\<open>s3\<close> or \<^verbatim>\<open>stdout\<close>, and fails with
    \<open>InvalidConfigurationValue\<close> otherwise.

  So \<open>InvalidState\<close> is the error for \<^verbatim>\<open>stdout\<close>; any other value that is not
  \<^verbatim>\<open>s3\<close> is rejected by the validation of \<^verbatim>\<open>LOG_ARCHIVE_MODE\<close> first.
\<close>

theorem archive_key_getter:
  assumes "kms_cache_ok c"
  shows "(\<forall>m. fst (get_log_archive_mode c) = Inr m \<and> m \<noteq> ''s3''
            \<longrightarrow> fst (get_log_kms_key_id c) = Inl InvalidState)
    \<and> (\<forall>e. fst (get_log_archive_mode c) = Inl e \<longrightarrow> fst (get_log_kms_key_id c) = Inl e)
    \<and> (\<forall>k. fst (get_log_archive_mode c) = Inr ''s3'' \<and> log_kms_key_id c = None
            \<and> configured c ''LOG_KMS_KEY_ID'' = Some k
            \<longrightarrow> fst (get_log_kms_key_id c) = Inr k)
    \<and> (\<forall>m0. log_archive_mode c = None \<and> configured c ''LOG_ARCHIVE_MODE'' = Some m0
            \<longrightarrow> fst (get_log_archive_mode c) =
                  (if lower m0 \<in> set [''s3'', ''stdout''] then Inr (lower m0)
                   else Inl (InvalidConfigurationValue ''LOG_ARCHIVE_MODE'' [''s3'', ''stdout''])))"
proof (intro conjI allI impI)
  fix m
  assume a: "fst (get_log_archive_mode c) = Inr m \<and> m \<noteq> ''s3''"
  then have "log_kms_key_id c = None"
    using kms_cache_ok_key_cached [OF assms] by (cases "log_kms_key_id c") auto
  with a show "fst (get_log_kms_key_id c) = Inl InvalidState"
    by (simp add: get_log_kms_key_id_uncached)
next
  fix e
  assume a: "fst (get_log_archive_mode c) = Inl e"
  then have "log_kms_key_id c = None"
    using kms_cache_ok_key_cached [OF assms] by (cases "log_kms_key_id c") auto
  with a show "fst (get_log_kms_key_id c) = Inl e"
    by (simp add: get_log_kms_key_id_uncached)
next
  fix k
  assume "fst (get_log_archive_mode c) = Inr ''s3'' \<and> log_kms_key_id c = None
            \<and> configured c ''LOG_KMS_KEY_ID'' = Some k"
  then show "fst (get_log_kms_key_id c) = Inr k"
    by (simp add: get_log_kms_key_id_uncached val_str_configured validations_LOG_KMS_KEY_ID)
next
  fix m0
  assume "log_archive_mode c = None \<and> configured c ''LOG_ARCHIVE_MODE'' = Some m0"
  then show "fst (get_log_archive_mode c) =
                  (if lower m0 \<in> set [''s3'', ''stdout''] then Inr (lower m0)
                   else Inl (InvalidConfigurationValue ''LOG_ARCHIVE_MODE'' [''s3'', ''stdout'']))"
    by (simp add: get_log_archive_mode_uncached)
qed

theorem archive_key_getter_witness:
  "fst (get_log_kms_key_id (init ''test'' (map_of [(''LOG_ARCHIVE_MODE'', ''stdout''), (''LOG_KMS_KEY_ID'', ''testvalue'')]) None None))
     = Inl InvalidState
   \<and> fst (get_log_kms_key_id (init ''test'' (map_of [(''LOG_ARCHIVE_MODE'', ''local''), (''LOG_KMS_KEY_ID'', ''testvalue'')]) None None))
     = Inl (InvalidConfigurationValue ''LOG_ARCHIVE_MODE'' [''s3'', ''stdout''])
   \<and> fst (get_log_kms_key_id (init ''test'' (map_of [(''LOG_ARCHIVE_MODE'', ''S3''), (''LOG_KMS_KEY_ID'', ''testvalue'')]) None None))
     = Inr ''testvalue''"
proof -
  let ?c1 = "init ''test'' (map_of [(''LOG_ARCHIVE_MODE'', ''stdout''), (''LOG_KMS_KEY_ID'', ''testvalue'')]) None None"
  let ?c2 = "init ''test'' (map_of [(''LOG_ARCHIVE_MODE'', ''local''), (''LOG_KMS_KEY_ID'', ''testvalue'')]) None None"
  let ?c3 = "init ''test'' (map_of [(''LOG_ARCHIVE_MODE'', ''S3''), (''LOG_KMS_KEY_ID'', ''testvalue'')]) None None"
  have m: "fst (get_log_archive_mode ?c1) = Inr ''stdout''"
    "fst (get_log_archive_mode ?c2) = Inl (InvalidConfigurationValue ''LOG_ARCHIVE_MODE'' [''s3'', ''stdout''])"
    "fst (get_log_archive_mode ?c3) = Inr ''s3''"
    by (simp_all add: get_log_archive_mode_fst eval_simps)
  have k: "log_kms_key_id ?c3 = None" "configured ?c3 ''LOG_KMS_KEY_ID'' = Some ''testvalue''"
    by (simp_all add: eval_simps)
  have d: "''stdout'' \<noteq> ''s3''" by simp
  note t1 = archive_key_getter [OF kms_cache_ok_init, THEN conjunct1, THEN spec, THEN mp,
      OF conjI [OF m(1) d]]
  note t2 = archive_key_getter [OF kms_cache_ok_init, THEN conjunct2, THEN conjunct1, THEN spec,
      THEN mp, OF m(2)]
  note t3 = archive_key_getter [OF kms_cache_ok_init, THEN conjunct2, THEN conjunct2,
      THEN conjunct1, THEN spec, THEN mp, OF conjI [OF m(3) conjI [OF k]]]
  from t1 t2 t3 show ?thesis by (intro conjI)
qed

text \<open>
  The claim as first stated has \<open>InvalidState\<close> for every mode other than \<^verbatim>\<open>s3\<close>.
  With \<^verbatim>\<open>LOG_ARCHIVE_MODE=local\<close> the error is the one of the validation.
\<close>

theorem archive_key_unknown_mode_counterexample:
  "fst (get_log_kms_key_id (init ''test'' (map_of [(''LOG_ARCHIVE_MODE'', ''local''), (''LOG_KMS_KEY_ID'', ''testvalue'')]) None None))
     \<noteq> Inl InvalidState"
proof -
  let ?c = "init ''test'' (map_of [(''LOG_ARCHIVE_MODE'', ''local''), (''LOG_KMS_KEY_ID'', ''testvalue'')]) None None"
  have "log_kms_key_id ?c = None" by (simp add: init_def)
  moreover have "fst (get_log_archive_mode ?c)
      = Inl (InvalidConfigurationValue ''LOG_ARCHIVE_MODE'' [''s3'', ''stdout''])"
    by (simp add: get_log_archive_mode_fst eval_simps)
  ultimately show ?thesis
    by (simp add: get_log_kms_key_id_uncached)
qed

subsection \<open>Evaluating the remaining getters\<close>

lemma other_getters_fst:
  "fst (get_log_path c) =
     (case log_path c of Some v \<Rightarrow> Inr v | None \<Rightarrow> val_str c ''LOG_PATH'' False None)"
  "fst (get_notification_arn c) =
     (case notification_arn c of Some v \<Rightarrow> Inr v
      | None \<Rightarrow> val_str c ''NOTIFICATION_ARN'' False None)"
  "fst (get_debug_mode c) =
     (case debug_mode c of Some v \<Rightarrow> Inr v | None \<Rightarrow> val_bool c ''DEBUG_MODE'' None)"
  "fst (get_safe_mode c) =
     (case safe_mode c of Some v \<Rightarrow> Inr v | None \<Rightarrow> val_bool c ''SAFE_MODE'' None)"
  by (simp_all add: get_log_path_def get_notification_arn_def get_debug_mode_def
      get_safe_mode_def split: option.splits sum.splits)

lemma get_log_level_uncached:
  assumes "log_level c = None"
  shows "fst (get_log_level c) =
     (case fst (get_debug_mode c) of Inl e \<Rightarrow> Inl e | Inr d \<Rightarrow> Inr (if d then 10 else 20))"
  using assms
  by (cases "get_debug_mode c")
     (simp add: get_log_level_def and_then_def Let_def split: sum.splits)

text \<open>What a call leaves untouched.\<close>

lemma and_then_frame:
  assumes "f (snd r) = x" and "\<And>v c. f c = x \<Longrightarrow> f (snd (k v c)) = x"
  shows "f (snd (and_then r k)) = x"
  using assms by (cases r) (auto simp: and_then_def split: sum.splits)

lemma add_chunk_frame:
  assumes "\<And>c. f (snd (g c)) = f c"
  shows "f (snd (add_chunk inc g chs c)) = f c"
proof (cases inc)
  case False
  then show ?thesis by (simp add: add_chunk_def)
next
  case True
  have "f (snd (and_then (g c) (\<lambda>v c1.
          if length v > 0
          then and_then (g c1) (\<lambda>v2 c2. (Inr (chs @ [v2]), c2))
          else (Inr chs, c1)))) = f c"
  proof (rule and_then_frame [where f = f])
    show "f (snd (g c)) = f c" by (rule assms)
  next
    fix v c1
    assume c1: "f c1 = f c"
    have "f (snd (and_then (g c1) (\<lambda>v2 c2. (Inr (chs @ [v2]), c2)))) = f c"
      by (rule and_then_frame [where f = f]) (simp_all add: assms c1)
    with c1 show "f (snd (if length v > 0
          then and_then (g c1) (\<lambda>v2 c2. (Inr (chs @ [v2]), c2))
          else (Inr chs, c1))) = f c"
      by simp
  qed
  with True show ?thesis by (simp add: add_chunk_def)
qed

lemma add_chunk_frame_from:
  assumes "\<And>c. f (snd (g c)) = f c" and "f c = x"
  shows "f (snd (add_chunk inc g chs c)) = x"
  using add_chunk_frame [of f g inc chs c, OF assms(1)] assms(2) by simp

lemma build_bucket_name_frame:
  assumes "\<And>c. f (snd (get_global_prefix c)) = f c"
    and "\<And>c. f (snd (get_application_name c)) = f c"
    and "\<And>c. f (snd (get_environment c)) = f c"
  shows "f (snd (build_bucket_name c name ip ia ie)) = f c"
  unfolding build_bucket_name_def
  by (intro and_then_frame [where f = f] add_chunk_frame_from [where f = f] assms) simp_all

lemma build_legacy_ssm_param_name_frame:
  assumes "\<And>c. f (snd (get_global_prefix c)) = f c"
    and "\<And>c. f (snd (get_application_name c)) = f c"
    and "\<And>c. f (snd (get_environment c)) = f c"
    and "\<And>c. f (snd (get_stack_name c)) = f c"
  shows "f (snd (build_legacy_ssm_param_name c name ip ia ie is)) = f c"
  unfolding build_legacy_ssm_param_name_def
  by (intro and_then_frame [where f = f] add_chunk_frame_from [where f = f] assms) simp_all

lemma build_ssm_param_name_frame:
  assumes "\<And>c. f (snd (get_global_prefix c)) = f c"
    and "\<And>c. f (snd (get_application_name c)) = f c"
    and "\<And>c. f (snd (get_environment c)) = f c"
    and "\<And>c. f (snd (get_stack_name c)) = f c"
  shows "f (snd (build_ssm_param_name c name ip ia ie is)) = f c"
  unfolding build_ssm_param_name_def
  by (intro and_then_frame [where f = f] add_chunk_frame_from [where f = f] assms) simp_all

lemma segment_getters_configured:
  "configured (snd (get_global_prefix c)) = configured c"
  "configured (snd (get_application_name c)) = configured c"
  "configured (snd (get_environment c)) = configured c"
  "configured (snd (get_stack_name c)) = configured c"
  by (auto simp: get_global_prefix_def get_application_name_def get_environment_def
      get_stack_name_def split: option.splits sum.splits)

lemma build_bucket_name_configured:
  "configured (snd (build_bucket_name c name ip ia ie)) = configured c"
  by (rule build_bucket_name_frame [where f = configured]) (rule segment_getters_configured)+

lemma val_str_cong: "configured c' = configured c \<Longrightarrow> val_str c' = val_str c"
  by (simp add: val_str_configured fun_eq_iff)

lemma get_log_bucket_name_uncached:
  assumes "log_bucket c = None" and "fst (build_bucket_name c ''logs'' True True False) = Inr b"
  shows "fst (get_log_bucket_name c) = val_str c ''LOG_BUCKET_NAME'' True (Some b)"
proof -
  obtain c1 where b: "build_bucket_name c ''logs'' True True False = (Inr b, c1)"
    using assms(2) by (cases "build_bucket_name c ''logs'' True True False") simp
  have "configured c1 = configured c"
    using build_bucket_name_configured [of c "''logs''" True True False] b by simp
  then have "val_str c1 = val_str c" by (rule val_str_cong)
  with assms(1) b show ?thesis
    by (simp add: get_log_bucket_name_def and_then_def split: sum.splits)
qed

lemmas full_eval_simps = full_config_def segment_getters_fst other_getters_fst
  get_aws_region_fst get_log_archive_mode_fst eval_simps

lemma full_config_values:
  "fst (get_application_name full_config) = Inr ''myapp''"
  "fst (get_debug_mode full_config) = Inr True"
  "fst (get_log_path full_config) = Inr ''../logs/''"
  "fst (get_safe_mode full_config) = Inr False"
  "fst (get_aws_region full_config) = Inr ''us-gov-east-1''"
  "fst (get_global_prefix full_config) = Inr ''''"
  "fst (get_environment full_config) = Inr ''prod''"
  "fst (get_stack_name full_config) = Inr ''primary''"
  "fst (get_log_archive_mode full_config) = Inr ''s3''"
  "fst (get_notification_arn full_config) = Inr ''arn:aws:sns:x''"
  by (simp_all add: full_eval_simps)

lemma full_config_uncached:
  "log_level full_config = None" "fips_mode full_config = None"
  "log_kms_key_id full_config = None" "log_bucket full_config = None"
  by (simp_all add: full_config_def init_def)

lemma full_config_derived_values:
  "fst (get_log_level full_config) = Inr 10"
  "fst (get_fips_mode sample_digits full_config) = Inr True"
  "fst (get_log_kms_key_id full_config) = Inr ''key-1''"
  "fst (get_log_bucket_name full_config) = Inr ''myapp-logs''"
proof -
  show "fst (get_log_level full_config) = Inr 10"
    by (simp add: get_log_level_uncached full_config_uncached full_config_values)
  have "re_search_gov sample_digits ''us-gov-east-1''"
    by (simp add: re_search_gov_def gov_region_body_def sample_digits_def ascii_digit_def)
  then show "fst (get_fips_mode sample_digits full_config) = Inr True"
    by (simp add: get_fips_mode_uncached [OF full_config_uncached(2) full_config_values(5)])
       (simp add: full_eval_simps)
  show "fst (get_log_kms_key_id full_config) = Inr ''key-1''"
    by (simp add: get_log_kms_key_id_uncached full_config_uncached full_config_values)
       (simp add: full_eval_simps)
  have "fst (build_bucket_name full_config ''logs'' True True False) =
      Inr (join ''-'' (kept [(True, ''''), (True, ''myapp''), (False, ''prod'')] @ [''logs'']))"
    by (rule bucket_chunks [OF full_config_values(6,1,7)])
  then have "fst (build_bucket_name full_config ''logs'' True True False) = Inr ''myapp-logs''"
    by (simp add: kept_def)
  then show "fst (get_log_bucket_name full_config) = Inr ''myapp-logs''"
    by (simp add: get_log_bucket_name_uncached [OF full_config_uncached(4)])
       (simp add: full_eval_simps)
qed

subsection \<open>The archive caches stay consistent\<close>

lemma kms_cache_ok_cong: "archive_cache c' = archive_cache c \<Longrightarrow> kms_cache_ok c' = kms_cache_ok c"
  by (simp add: archive_cache_def kms_cache_ok_def split: option.splits)

lemma archive_cache_update [simp]:
  "archive_cache (c\<lparr>application_name := a1\<rparr>) = archive_cache c"
  "archive_cache (c\<lparr>debug_mode := a2\<rparr>) = archive_cache c"
  "archive_cache (c\<lparr>log_level := a3\<rparr>) = archive_cache c"
  "archive_cache (c\<lparr>log_path := a4\<rparr>) = archive_cache c"
  "archive_cache (c\<lparr>safe_mode := a5\<rparr>) = archive_cache c"
  "archive_cache (c\<lparr>fips_mode := a6\<rparr>) = archive_cache c"
  "archive_cache (c\<lparr>aws_region := a8\<rparr>) = archive_cache c"
  "archive_cache (c\<lparr>log_bucket := a9\<rparr>) = archive_cache c"
  "archive_cache (c\<lparr>global_prefix := a11\<rparr>) = archive_cache c"
  "archive_cache (c\<lparr>environment := a12\<rparr>) = archive_cache c"
  "archive_cache (c\<lparr>stack_name := a13\<rparr>) = archive_cache c"
  "archive_cache (c\<lparr>notification_arn := a14\<rparr>) = archive_cache c"
  by (simp_all add: archive_cache_def)

lemma simple_getters_archive_cache:
  "archive_cache (snd (get_application_name c)) = archive_cache c"
  "archive_cache (snd (get_debug_mode c)) = archive_cache c"
  "archive_cache (snd (get_log_path c)) = archive_cache c"
  "archive_cache (snd (get_safe_mode c)) = archive_cache c"
  "archive_cache (snd (get_aws_region c)) = archive_cache c"
  "archive_cache (snd (get_global_prefix c)) = archive_cache c"
  "archive_cache (snd (get_environment c)) = archive_cache c"
  "archive_cache (snd (get_stack_name c)) = archive_cache c"
  "archive_cache (snd (get_notification_arn c)) = archive_cache c"
  by (auto simp: get_application_name_def get_debug_mode_def get_log_path_def
      get_safe_mode_def get_aws_region_def get_global_prefix_def get_environment_def
      get_stack_name_def get_notification_arn_def split: option.splits sum.splits)

lemma builders_archive_cache:
  "archive_cache (snd (build_legacy_ssm_param_name c name ip ia ie is)) = archive_cache c"
  "archive_cache (snd (build_ssm_param_name c oname ip ia ie is)) = archive_cache c"
  "archive_cache (snd (build_bucket_name c name ip ia ie)) = archive_cache c"
  by (rule build_legacy_ssm_param_name_frame [where f = archive_cache],
      (rule simple_getters_archive_cache)+)
     (rule build_ssm_param_name_frame [where f = archive_cache],
      (rule simple_getters_archive_cache)+,
      rule build_bucket_name_frame [where f = archive_cache],
      (rule simple_getters_archive_cache)+)

lemma derived_getters_archive_cache:
  "archive_cache (snd (get_log_level c)) = archive_cache c"
  "archive_cache (snd (get_fips_mode digits c)) = archive_cache c"
  "archive_cache (snd (get_log_bucket_name c)) = archive_cache c"
proof -
  show "archive_cache (snd (get_log_level c)) = archive_cache c"
  proof (cases "log_level c")
    case None
    have "archive_cache (snd (and_then (get_debug_mode c) (\<lambda>d c1.
           let v = (if d then 10 else 20) in (Inr v, c1\<lparr>log_level := Some v\<rparr>)))) = archive_cache c"
      by (rule and_then_frame [where f = archive_cache])
         (simp_all add: simple_getters_archive_cache Let_def)
    with None show ?thesis by (simp add: get_log_level_def)
  qed (simp add: get_log_level_def)
  show "archive_cache (snd (get_fips_mode digits c)) = archive_cache c"
  proof (cases "fips_mode c")
    case None
    have "archive_cache (snd (and_then (get_aws_region c) (\<lambda>region c1.
           let in_gov_cloud = re_search_gov digits region in
           case val_bool c1 ''FIPS_MODE'' (Some (if in_gov_cloud then ''on'' else ''off'')) of
             Inl e \<Rightarrow> (Inl e, c1)
           | Inr v \<Rightarrow> (Inr v, c1\<lparr>fips_mode := Some v\<rparr>)))) = archive_cache c"
      by (rule and_then_frame [where f = archive_cache])
         (simp_all add: simple_getters_archive_cache Let_def split: sum.splits)
    with None show ?thesis by (simp add: get_fips_mode_def)
  qed (simp add: get_fips_mode_def)
  show "archive_cache (snd (get_log_bucket_name c)) = archive_cache c"
  proof (cases "log_bucket c")
    case None
    have "archive_cache (snd (and_then (build_bucket_name c ''logs'' True True False) (\<lambda>b c1.
           case val_str c1 ''LOG_BUCKET_NAME'' True (Some b) of
             Inl e \<Rightarrow> (Inl e, c1)
           | Inr v \<Rightarrow> (Inr v, c1\<lparr>log_bucket := Some v\<rparr>)))) = archive_cache c"
      by (rule and_then_frame [where f = archive_cache])
         (simp_all add: builders_archive_cache split: sum.splits)
    with None show ?thesis by (simp add: get_log_bucket_name_def)
  qed (simp add: get_log_bucket_name_def)
qed

lemma kms_cache_ok_get_log_archive_mode:
  assumes "kms_cache_ok c"
  shows "kms_cache_ok (snd (get_log_archive_mode c))"
  using assms
  by (auto simp: kms_cache_ok_def get_log_archive_mode_def split: option.splits sum.splits)

lemma kms_cache_ok_get_log_kms_key_id:
  assumes "kms_cache_ok c"
  shows "kms_cache_ok (snd (get_log_kms_key_id c))"
proof (cases "log_kms_key_id c")
  case (Some k)
  with assms show ?thesis by (simp add: get_log_kms_key_id_def)
next
  case None
  show ?thesis
  proof (cases "fst (get_log_archive_mode c)")
    case (Inl e)
    with None assms show ?thesis
      by (simp add: get_log_kms_key_id_def and_then_def get_log_archive_mode_run(2) [OF Inl])
  next
    case (Inr m)
    with None show ?thesis
      by (simp add: get_log_kms_key_id_def and_then_def get_log_archive_mode_run(1) [OF Inr]
          kms_cache_ok_def split: sum.splits)
  qed
qed

text \<open>Every getter and every builder keeps \<open>kms_cache_ok\<close>.\<close>

lemma kms_cache_ok_preserved:
  assumes "kms_cache_ok c"
  shows "kms_cache_ok (snd (get_application_name c))"
    and "kms_cache_ok (snd (get_debug_mode c))"
    and "kms_cache_ok (snd (get_log_level c))"
    and "kms_cache_ok (snd (get_log_path c))"
    and "kms_cache_ok (snd (get_safe_mode c))"
    and "kms_cache_ok (snd (get_aws_region c))"
    and "kms_cache_ok (snd (get_fips_mode digits c))"
    and "kms_cache_ok (snd (get_global_prefix c))"
    and "kms_cache_ok (snd (get_environment c))"
    and "kms_cache_ok (snd (get_stack_name c))"
    and "kms_cache_ok (snd (get_log_archive_mode c))"
    and "kms_cache_ok (snd (get_log_kms_key_id c))"
    and "kms_cache_ok (snd (get_notification_arn c))"
    and "kms_cache_ok (snd (get_log_bucket_name c))"
    and "kms_cache_ok (snd (build_legacy_ssm_param_name c name ip ia ie is))"
    and "kms_cache_ok (snd (build_ssm_param_name c oname ip ia ie is))"
    and "kms_cache_ok (snd (build_bucket_name c name ip ia ie))"
  using assms kms_cache_ok_get_log_archive_mode [OF assms]
    kms_cache_ok_get_log_kms_key_id [OF assms]
  by (simp_all add: kms_cache_ok_cong [OF simple_getters_archive_cache(1)]
      kms_cache_ok_cong [OF simple_getters_archive_cache(2)]
      kms_cache_ok_cong [OF simple_getters_archive_cache(3)]
      kms_cache_ok_cong [OF simple_getters_archive_cache(4)]
      kms_cache_ok_cong [OF simple_getters_archive_cache(5)]
      kms_cache_ok_cong [OF simple_getters_archive_cache(6)]
      kms_cache_ok_cong [OF simple_getters_archive_cache(7)]
      kms_cache_ok_cong [OF simple_getters_archive_cache(8)]
      kms_cache_ok_cong [OF simple_getters_archive_cache(9)]
      kms_cache_ok_cong [OF builders_archive_cache(1)]
      kms_cache_ok_cong [OF builders_archive_cache(2)]
      kms_cache_ok_cong [OF builders_archive_cache(3)]
      kms_cache_ok_cong [OF derived_getters_archive_cache(1)]
      kms_cache_ok_cong [OF derived_getters_archive_cache(2)]
      kms_cache_ok_cong [OF derived_getters_archive_cache(3)])

subsection \<open>Memoisation\<close>

text \<open>No call empties or changes a cache attribute that is filled.\<close>

lemma slot_kept_refl: "slot_kept slot c c"
  by (simp add: slot_kept_def split: option.splits)

lemma slot_kept_trans:
  "slot_kept slot c c1 \<Longrightarrow> slot_kept slot c1 c2 \<Longrightarrow> slot_kept slot c c2"
  by (auto simp: slot_kept_def split: option.splits)

lemma slot_kept_cong:
  "slot_kept slot c c1 \<Longrightarrow> slot c2 = slot c1 \<Longrightarrow> slot_kept slot c c2"
  by (simp add: slot_kept_def split: option.splits)

lemma slot_kept_None: "slot c = None \<Longrightarrow> slot_kept slot c c2"
  by (simp add: slot_kept_def)

lemma cache_kept_refl: "cache_kept c c"
  by (simp add: cache_kept_def slot_kept_refl)

lemma cache_kept_trans:
  assumes "cache_kept c c1" and "cache_kept c1 c2"
  shows "cache_kept c c2"
  using assms unfolding cache_kept_def
  by (elim conjE, intro conjI) (erule (1) slot_kept_trans)+

text \<open>Filling an attribute that was empty at the start keeps the cache.\<close>

lemma cache_kept_fill:
  "cache_kept c c1 \<Longrightarrow> application_name c = None \<Longrightarrow> cache_kept c (c1\<lparr>application_name := x1\<rparr>)"
  "cache_kept c c1 \<Longrightarrow> debug_mode c = None \<Longrightarrow> cache_kept c (c1\<lparr>debug_mode := x2\<rparr>)"
  "cache_kept c c1 \<Longrightarrow> log_level c = None \<Longrightarrow> cache_kept c (c1\<lparr>log_level := x3\<rparr>)"
  "cache_kept c c1 \<Longrightarrow> log_path c = None \<Longrightarrow> cache_kept c (c1\<lparr>log_path := x4\<rparr>)"
  "cache_kept c c1 \<Longrightarrow> safe_mode c = None \<Longrightarrow> cache_kept c (c1\<lparr>safe_mode := x5\<rparr>)"
  "cache_kept c c1 \<Longrightarrow> fips_mode c = None \<Longrightarrow> cache_kept c (c1\<lparr>fips_mode := x6\<rparr>)"
  "cache_kept c c1 \<Longrightarrow> log_archive_mode c = None \<Longrightarrow> cache_kept c (c1\<lparr>log_archive_mode := x7\<rparr>)"
  "cache_kept c c1 \<Longrightarrow> aws_region c = None \<Longrightarrow> cache_kept c (c1\<lparr>aws_region := x8\<rparr>)"
  "cache_kept c c1 \<Longrightarrow> log_bucket c = None \<Longrightarrow> cache_kept c (c1\<lparr>log_bucket := x9\<rparr>)"
  "cache_kept c c1 \<Longrightarrow> log_kms_key_id c = None \<Longrightarrow> cache_kept c (c1\<lparr>log_kms_key_id := x10\<rparr>)"
  "cache_kept c c1 \<Longrightarrow> global_prefix c = None \<Longrightarrow> cache_kept c (c1\<lparr>global_prefix := x11\<rparr>)"
  "cache_kept c c1 \<Longrightarrow> environment c = None \<Longrightarrow> cache_kept c (c1\<lparr>environment := x12\<rparr>)"
  "cache_kept c c1 \<Longrightarrow> stack_name c = None \<Longrightarrow> cache_kept c (c1\<lparr>stack_name := x13\<rparr>)"
  "cache_kept c c1 \<Longrightarrow> notification_arn c = None \<Longrightarrow> cache_kept c (c1\<lparr>notification_arn := x14\<rparr>)"
  unfolding cache_kept_def
  by (elim conjE, intro conjI;
      (erule slot_kept_None | (erule slot_kept_cong, simp)))+

lemma simple_getters_kept:
  "cache_kept c (snd (get_application_name c))"
  "cache_kept c (snd (get_debug_mode c))"
  "cache_kept c (snd (get_log_path c))"
  "cache_kept c (snd (get_safe_mode c))"
  "cache_kept c (snd (get_aws_region c))"
  "cache_kept c (snd (get_global_prefix c))"
  "cache_kept c (snd (get_environment c))"
  "cache_kept c (snd (get_stack_name c))"
  "cache_kept c (snd (get_log_archive_mode c))"
  "cache_kept c (snd (get_notification_arn c))"
  by (auto simp: get_application_name_def get_debug_mode_def
      get_log_path_def get_safe_mode_def get_aws_region_def get_global_prefix_def
      get_environment_def get_stack_name_def get_log_archive_mode_def
      get_notification_arn_def split: option.splits sum.splits
      intro!: cache_kept_refl cache_kept_fill)

lemma and_then_kept:
  assumes "cache_kept c (snd r)"
    and "\<And>v c1. cache_kept c c1 \<Longrightarrow> cache_kept c (snd (k v c1))"
  shows "cache_kept c (snd (and_then r k))"
  using assms by (cases r) (auto simp: and_then_def split: sum.splits)

lemma add_chunk_kept:
  assumes g: "\<And>c. cache_kept c (snd (g c))" and c: "cache_kept c0 c"
  shows "cache_kept c0 (snd (add_chunk inc g chs c))"
proof (cases inc)
  case False
  with c show ?thesis by (simp add: add_chunk_def)
next
  case True
  have "cache_kept c0 (snd (and_then (g c) (\<lambda>v c1.
          if length v > 0
          then and_then (g c1) (\<lambda>v2 c2. (Inr (chs @ [v2]), c2))
          else (Inr chs, c1))))"
  proof (rule and_then_kept)
    show "cache_kept c0 (snd (g c))"
      using c g by (rule cache_kept_trans)
  next
    fix v c1
    assume c1: "cache_kept c0 c1"
    have "cache_kept c0 (snd (and_then (g c1) (\<lambda>v2 c2. (Inr (chs @ [v2]), c2))))"
    proof (rule and_then_kept)
      show "cache_kept c0 (snd (g c1))"
        using c1 g by (rule cache_kept_trans)
    qed simp
    with c1 show "cache_kept c0 (snd (if length v > 0
          then and_then (g c1) (\<lambda>v2 c2. (Inr (chs @ [v2]), c2))
          else (Inr chs, c1)))"
      by simp
  qed
  with True show ?thesis by (simp add: add_chunk_def)
qed

lemma builders_kept:
  "cache_kept c (snd (build_legacy_ssm_param_name c name ip ia ie is))"
  "cache_kept c (snd (build_ssm_param_name c oname ip ia ie is))"
  "cache_kept c (snd (build_bucket_name c name ip ia ie))"
  unfolding build_legacy_ssm_param_name_def build_ssm_param_name_def build_bucket_name_def
  by (intro and_then_kept add_chunk_kept simple_getters_kept cache_kept_refl, simp_all)+

lemma derived_getters_kept:
  "cache_kept c (snd (get_log_level c))"
  "cache_kept c (snd (get_fips_mode digits c))"
  "cache_kept c (snd (get_log_kms_key_id c))"
  "cache_kept c (snd (get_log_bucket_name c))"
proof -
  show "cache_kept c (snd (get_log_level c))"
  proof (cases "log_level c")
    case None
    obtain r c1 where g: "get_debug_mode c = (r, c1)"
      by (cases "get_debug_mode c")
    have "cache_kept c c1"
      using simple_getters_kept(2) [of c] g by simp
    with None g show ?thesis
      by (cases r) (simp_all add: get_log_level_def and_then_def Let_def cache_kept_fill)
  qed (simp add: get_log_level_def cache_kept_refl)
  show "cache_kept c (snd (get_fips_mode digits c))"
  proof (cases "fips_mode c")
    case None
    obtain r c1 where g: "get_aws_region c = (r, c1)"
      by (cases "get_aws_region c")
    have "cache_kept c c1"
      using simple_getters_kept(5) [of c] g by simp
    with None g show ?thesis
      by (cases r)
         (simp_all add: get_fips_mode_def and_then_def Let_def cache_kept_fill split: sum.splits)
  qed (simp add: get_fips_mode_def cache_kept_refl)
  show "cache_kept c (snd (get_log_kms_key_id c))"
  proof (cases "log_kms_key_id c")
    case None
    obtain r c1 where g: "get_log_archive_mode c = (r, c1)"
      by (cases "get_log_archive_mode c")
    have "cache_kept c c1"
      using simple_getters_kept(9) [of c] g by simp
    with None g show ?thesis
      by (cases r)
         (simp_all add: get_log_kms_key_id_def and_then_def cache_kept_fill split: sum.splits)
  qed (simp add: get_log_kms_key_id_def cache_kept_refl)
  show "cache_kept c (snd (get_log_bucket_name c))"
  proof (cases "log_bucket c")
    case None
    obtain r c1 where g: "build_bucket_name c ''logs'' True True False = (r, c1)"
      by (cases "build_bucket_name c ''logs'' True True False")
    have "cache_kept c c1"
      using builders_kept(3) [of c "''logs''" True True False] g by simp
    with None g show ?thesis
      by (cases r)
         (simp_all add: get_log_bucket_name_def and_then_def cache_kept_fill split: sum.splits)
  qed (simp add: get_log_bucket_name_def cache_kept_refl)
qed

lemma with_mappings_kept: "cache_kept c (with_mappings c e ov lov)"
  unfolding cache_kept_def
  by (intro conjI; rule slot_kept_cong [OF slot_kept_refl], simp)

lemma step_kept: "step c c' \<Longrightarrow> cache_kept c c'"
  by (induction rule: step.induct)
     (simp_all add: simple_getters_kept derived_getters_kept builders_kept with_mappings_kept)

lemma later_kept: "later c c' \<Longrightarrow> cache_kept c c'"
proof (induction rule: later.induct)
  case (later_refl c)
  show ?case by (rule cache_kept_refl)
next
  case (later_step c c1 c2)
  from later_step.IH step_kept [OF later_step.hyps(2)] show ?case
    by (rule cache_kept_trans)
qed

text \<open>What the getters that call another getter or a builder return on first access.\<close>

lemma get_aws_region_fail:
  "fst (get_aws_region c) = Inl e \<Longrightarrow> get_aws_region c = (Inl e, c)"
  by (auto simp: get_aws_region_def split: option.splits sum.splits)

lemma get_fips_mode_first:
  assumes "fips_mode c = None"
  shows "fst (get_fips_mode digits c) =
     (case fst (get_aws_region c) of
        Inl e \<Rightarrow> Inl e
      | Inr r \<Rightarrow>
          val_bool c ''FIPS_MODE'' (Some (if re_search_gov digits r then ''on'' else ''off'')))"
proof (cases "fst (get_aws_region c)")
  case (Inl e)
  with assms show ?thesis
    by (simp add: get_fips_mode_def and_then_def get_aws_region_fail [OF Inl])
next
  case (Inr r)
  then show ?thesis
    by (simp add: get_fips_mode_uncached [OF assms Inr])
qed

lemma get_log_bucket_name_first:
  assumes "log_bucket c = None"
  shows "fst (get_log_bucket_name c) =
     (case fst (build_bucket_name c ''logs'' True True False) of
        Inl e \<Rightarrow> Inl e
      | Inr b \<Rightarrow> val_str c ''LOG_BUCKET_NAME'' True (Some b))"
proof (cases "fst (build_bucket_name c ''logs'' True True False)")
  case (Inl e)
  with assms show ?thesis
    by (cases "build_bucket_name c ''logs'' True True False")
       (simp add: get_log_bucket_name_def and_then_def)
next
  case (Inr b)
  then show ?thesis
    by (simp add: get_log_bucket_name_uncached [OF assms Inr])
qed

text \<open>
  A getter that computes on an empty attribute, serves a filled attribute as it is, and
  fills it when it returns, is memoised.
\<close>

lemma memoizedI:
  assumes first: "\<And>c. slot c = None \<Longrightarrow> fst (getter c) = compute c"
    and cached: "\<And>c v. slot c = Some v \<Longrightarrow> getter c = (Inr v, c)"
    and caches: "\<And>c v. fst (getter c) = Inr v \<Longrightarrow> slot (snd (getter c)) = Some v"
    and kept: "\<And>c c'. cache_kept c c' \<Longrightarrow> slot_kept slot c c'"
  shows "memoized slot compute getter"
  unfolding memoized_def
proof (intro allI impI conjI)
  fix c
  assume "slot c = None"
  then show "fst (getter c) = compute c" by (rule first)
next
  fix c v
  assume "fst (getter c) = Inr v"
  then show stored: "slot (snd (getter c)) = Some v" by (rule caches)
  fix c'
  assume "later (snd (getter c)) c'"
  then have "slot_kept slot (snd (getter c)) c'"
    by (intro kept later_kept)
  with stored have "slot c' = Some v" by (simp add: slot_kept_def)
  then show "getter c' = (Inr v, c')" by (rule cached)
qed

lemma memoized_get_application_name:
  "memoized application_name (\<lambda>c. val_str c ''APPLICATION_NAME'' True None) get_application_name"
  by (rule memoizedI)
     (auto simp: get_application_name_def cache_kept_def split: option.splits sum.splits)

lemma memoized_get_debug_mode:
  "memoized debug_mode (\<lambda>c. val_bool c ''DEBUG_MODE'' None) get_debug_mode"
  by (rule memoizedI)
     (auto simp: get_debug_mode_def cache_kept_def split: option.splits sum.splits)

lemma memoized_get_log_level:
  "memoized log_level
     (\<lambda>c. case fst (get_debug_mode c) of
          Inl e \<Rightarrow> Inl e
        | Inr d \<Rightarrow> Inr (if d then 10 else 20))
     get_log_level"
proof (rule memoizedI)
  show "fst (get_log_level c) =
       (case fst (get_debug_mode c) of
          Inl e \<Rightarrow> Inl e
        | Inr d \<Rightarrow> Inr (if d then 10 else 20))"
    if "log_level c = None" for c
    using that by (rule get_log_level_uncached)
qed (auto simp: get_log_level_def and_then_def Let_def cache_kept_def
      split: option.splits sum.splits prod.splits)

lemma memoized_get_log_path:
  "memoized log_path (\<lambda>c. val_str c ''LOG_PATH'' False None) get_log_path"
  by (rule memoizedI)
     (auto simp: get_log_path_def cache_kept_def split: option.splits sum.splits)

lemma memoized_get_safe_mode:
  "memoized safe_mode (\<lambda>c. val_bool c ''SAFE_MODE'' None) get_safe_mode"
  by (rule memoizedI)
     (auto simp: get_safe_mode_def cache_kept_def split: option.splits sum.splits)

lemma memoized_get_aws_region:
  "memoized aws_region (\<lambda>c. val_str c ''AWS_REGION'' True None) get_aws_region"
  by (rule memoizedI)
     (auto simp: get_aws_region_def cache_kept_def split: option.splits sum.splits)

lemma memoized_get_fips_mode:
  "memoized fips_mode
     (\<lambda>c. case fst (get_aws_region c) of
          Inl e \<Rightarrow> Inl e
        | Inr r \<Rightarrow>
            val_bool c ''FIPS_MODE'' (Some (if re_search_gov digits r then ''on'' else ''off'')))
     (get_fips_mode digits)"
proof (rule memoizedI)
  show "fst (get_fips_mode digits c) =
       (case fst (get_aws_region c) of
          Inl e \<Rightarrow> Inl e
        | Inr r \<Rightarrow>
            val_bool c ''FIPS_MODE'' (Some (if re_search_gov digits r then ''on'' else ''off'')))"
    if "fips_mode c = None" for c
    using that by (rule get_fips_mode_first)
qed (auto simp: get_fips_mode_def and_then_def Let_def cache_kept_def
      split: option.splits sum.splits prod.splits if_splits)

lemma memoized_get_global_prefix:
  "memoized global_prefix (\<lambda>c. val_str c ''GLOBAL_PREFIX'' True None) get_global_prefix"
  by (rule memoizedI)
     (auto simp: get_global_prefix_def cache_kept_def split: option.splits sum.splits)

lemma memoized_get_environment:
  "memoized environment (\<lambda>c. val_str c ''ENVIRONMENT'' True None) get_environment"
  by (rule memoizedI)
     (auto simp: get_environment_def cache_kept_def split: option.splits sum.splits)

lemma memoized_get_stack_name:
  "memoized stack_name (\<lambda>c. val_str c ''STACK_NAME'' True None) get_stack_name"
  by (rule memoizedI)
     (auto simp: get_stack_name_def cache_kept_def split: option.splits sum.splits)

lemma memoized_get_log_archive_mode:
  "memoized log_archive_mode (\<lambda>c. val_str c ''LOG_ARCHIVE_MODE'' True None) get_log_archive_mode"
  by (rule memoizedI)
     (auto simp: get_log_archive_mode_def cache_kept_def split: option.splits sum.splits)

lemma memoized_get_log_kms_key_id:
  "memoized log_kms_key_id
     (\<lambda>c. case fst (get_log_archive_mode c) of
          Inl e \<Rightarrow> Inl e
        | Inr m \<Rightarrow>
            if m \<noteq> ''s3'' then Inl InvalidState
            else val_str c ''LOG_KMS_KEY_ID'' False None)
     get_log_kms_key_id"
proof (rule memoizedI)
  show "fst (get_log_kms_key_id c) =
       (case fst (get_log_archive_mode c) of
          Inl e \<Rightarrow> Inl e
        | Inr m \<Rightarrow>
            if m \<noteq> ''s3'' then Inl InvalidState
            else val_str c ''LOG_KMS_KEY_ID'' False None)"
    if "log_kms_key_id c = None" for c
    using that by (rule get_log_kms_key_id_uncached)
qed (auto simp: get_log_kms_key_id_def and_then_def cache_kept_def
      split: option.splits sum.splits prod.splits if_splits)

lemma memoized_get_notification_arn:
  "memoized notification_arn (\<lambda>c. val_str c ''NOTIFICATION_ARN'' False None) get_notification_arn"
  by (rule memoizedI)
     (auto simp: get_notification_arn_def cache_kept_def split: option.splits sum.splits)

lemma memoized_get_log_bucket_name:
  "memoized log_bucket
     (\<lambda>c. case fst (build_bucket_name c ''logs'' True True False) of
          Inl e \<Rightarrow> Inl e
        | Inr b \<Rightarrow> val_str c ''LOG_BUCKET_NAME'' True (Some b))
     get_log_bucket_name"
proof (rule memoizedI)
  show "fst (get_log_bucket_name c) =
       (case fst (build_bucket_name c ''logs'' True True False) of
          Inl e \<Rightarrow> Inl e
        | Inr b \<Rightarrow> val_str c ''LOG_BUCKET_NAME'' True (Some b))"
    if "log_bucket c = None" for c
    using that by (rule get_log_bucket_name_first)
qed (auto simp: get_log_bucket_name_def and_then_def cache_kept_def
      split: option.splits sum.splits prod.splits)

text \<open>
  C9. Each of the fourteen derived getters is memoised. On an instance whose cache
  attribute for the getter is empty, the getter computes its result: the resolution of its
  setting, or for the four derived ones what the getter or builder they call gives. When
  a call returns a value, the value is in the getter's cache attribute; from then on,
  whatever getters and builders are called on the instance (returning or raising) and
  however the environment and the two override mappings are changed, every call of the
  getter returns that same value and leaves the instance as it is. For \<open>get_fips_mode\<close>
  this holds whatever the digit class is. (A call that raises caches no result for its
  getter.)
\<close>

theorem getters_memoized:
  "memoized application_name (\<lambda>c. val_str c ''APPLICATION_NAME'' True None) get_application_name
   \<and> memoized debug_mode (\<lambda>c. val_bool c ''DEBUG_MODE'' None) get_debug_mode
   \<and> memoized log_level
     (\<lambda>c. case fst (get_debug_mode c) of
          Inl e \<Rightarrow> Inl e
        | Inr d \<Rightarrow> Inr (if d then 10 else 20))
     get_log_level
   \<and> memoized log_path (\<lambda>c. val_str c ''LOG_PATH'' False None) get_log_path
   \<and> memoized safe_mode (\<lambda>c. val_bool c ''SAFE_MODE'' None) get_safe_mode
   \<and> memoized aws_region (\<lambda>c. val_str c ''AWS_REGION'' True None) get_aws_region
   \<and> (\<forall>digits. memoized fips_mode
     (\<lambda>c. case fst (get_aws_region c) of
          Inl e \<Rightarrow> Inl e
        | Inr r \<Rightarrow>
            val_bool c ''FIPS_MODE'' (Some (if re_search_gov digits r then ''on'' else ''off'')))
     (get_fips_mode digits))
   \<and> memoized global_prefix (\<lambda>c. val_str c ''GLOBAL_PREFIX'' True None) get_global_prefix
   \<and> memoized environment (\<lambda>c. val_str c ''ENVIRONMENT'' True None) get_environment
   \<and> memoized stack_name (\<lambda>c. val_str c ''STACK_NAME'' True None) get_stack_name
   \<and> memoized log_archive_mode (\<lambda>c. val_str c ''LOG_ARCHIVE_MODE'' True None) get_log_archive_mode
   \<and> memoized log_kms_key_id
     (\<lambda>c. case fst (get_log_archive_mode c) of
          Inl e \<Rightarrow> Inl e
        | Inr m \<Rightarrow>
            if m \<noteq> ''s3'' then Inl InvalidState
            else val_str c ''LOG_KMS_KEY_ID'' False None)
     get_log_kms_key_id
   \<and> memoized notification_arn (\<lambda>c. val_str c ''NOTIFICATION_ARN'' False None) get_notification_arn
   \<and> memoized log_bucket
     (\<lambda>c. case fst (build_bucket_name c ''logs'' True True False) of
          Inl e \<Rightarrow> Inl e
        | Inr b \<Rightarrow> val_str c ''LOG_BUCKET_NAME'' True (Some b))
     get_log_bucket_name"
  by (intro conjI allI memoized_get_application_name
      memoized_get_debug_mode
      memoized_get_log_level
      memoized_get_log_path
      memoized_get_safe_mode
      memoized_get_aws_region
      memoized_get_fips_mode
      memoized_get_global_prefix
      memoized_get_environment
      memoized_get_stack_name
      memoized_get_log_archive_mode
      memoized_get_log_kms_key_id
      memoized_get_notification_arn
      memoized_get_log_bucket_name)

lemma later_afterwards: "later c (afterwards c)"
  unfolding afterwards_def
  by (intro later_step [OF _ step_build_ssm] later_step [OF _ step_log_level]
      later_step [OF _ step_mappings] later_step [OF _ step_log_bucket_name] later_refl)

theorem getters_memoized_witness:
  "application_name (snd (get_application_name full_config)) = Some ''myapp''
   \<and> fst (get_application_name (afterwards (snd (get_application_name full_config)))) = Inr ''myapp''
   \<and> debug_mode (snd (get_debug_mode full_config)) = Some True
   \<and> fst (get_debug_mode (afterwards (snd (get_debug_mode full_config)))) = Inr True
   \<and> log_level (snd (get_log_level full_config)) = Some 10
   \<and> fst (get_log_level (afterwards (snd (get_log_level full_config)))) = Inr 10
   \<and> log_path (snd (get_log_path full_config)) = Some ''../logs/''
   \<and> fst (get_log_path (afterwards (snd (get_log_path full_config)))) = Inr ''../logs/''
   \<and> safe_mode (snd (get_safe_mode full_config)) = Some False
   \<and> fst (get_safe_mode (afterwards (snd (get_safe_mode full_config)))) = Inr False
   \<and> aws_region (snd (get_aws_region full_config)) = Some ''us-gov-east-1''
   \<and> fst (get_aws_region (afterwards (snd (get_aws_region full_config)))) = Inr ''us-gov-east-1''
   \<and> fips_mode (snd (get_fips_mode sample_digits full_config)) = Some True
   \<and> fst (get_fips_mode sample_digits (afterwards (snd (get_fips_mode sample_digits full_config)))) = Inr True
   \<and> global_prefix (snd (get_global_prefix full_config)) = Some ''''
   \<and> fst (get_global_prefix (afterwards (snd (get_global_prefix full_config)))) = Inr ''''
   \<and> environment (snd (get_environment full_config)) = Some ''prod''
   \<and> fst (get_environment (afterwards (snd (get_environment full_config)))) = Inr ''prod''
   \<and> stack_name (snd (get_stack_name full_config)) = Some ''primary''
   \<and> fst (get_stack_name (afterwards (snd (get_stack_name full_config)))) = Inr ''primary''
   \<and> log_archive_mode (snd (get_log_archive_mode full_config)) = Some ''s3''
   \<and> fst (get_log_archive_mode (afterwards (snd (get_log_archive_mode full_config)))) = Inr ''s3''
   \<and> log_kms_key_id (snd (get_log_kms_key_id full_config)) = Some ''key-1''
   \<and> fst (get_log_kms_key_id (afterwards (snd (get_log_kms_key_id full_config)))) = Inr ''key-1''
   \<and> notification_arn (snd (get_notification_arn full_config)) = Some ''arn:aws:sns:x''
   \<and> fst (get_notification_arn (afterwards (snd (get_notification_arn full_config)))) = Inr ''arn:aws:sns:x''
   \<and> log_bucket (snd (get_log_bucket_name full_config)) = Some ''myapp-logs''
   \<and> fst (get_log_bucket_name (afterwards (snd (get_log_bucket_name full_config)))) = Inr ''myapp-logs''"
proof -
  have again: "slot (snd (getter full_config)) = Some v"
    "fst (getter (afterwards (snd (getter full_config)))) = Inr v"
    if "memoized slot compute getter" and "fst (getter full_config) = Inr v"
    for slot :: "LambdaConfig \<Rightarrow> 'a option" and compute getter v
  proof -
    note r = that(1) [unfolded memoized_def, THEN conjunct2, rule_format, OF that(2)]
    show "slot (snd (getter full_config)) = Some v"
      by (rule r [THEN conjunct1])
    have "getter (afterwards (snd (getter full_config)))
        = (Inr v, afterwards (snd (getter full_config)))"
      by (rule r [THEN conjunct2, rule_format, OF later_afterwards])
    then show "fst (getter (afterwards (snd (getter full_config)))) = Inr v"
      by simp
  qed
  have m: "memoized application_name (\<lambda>c. val_str c ''APPLICATION_NAME'' True None) get_application_name"
    "memoized debug_mode (\<lambda>c. val_bool c ''DEBUG_MODE'' None) get_debug_mode"
    "memoized log_level
     (\<lambda>c. case fst (get_debug_mode c) of
          Inl e \<Rightarrow> Inl e
        | Inr d \<Rightarrow> Inr (if d then 10 else 20))
     get_log_level"
    "memoized log_path (\<lambda>c. val_str c ''LOG_PATH'' False None) get_log_path"
    "memoized safe_mode (\<lambda>c. val_bool c ''SAFE_MODE'' None) get_safe_mode"
    "memoized aws_region (\<lambda>c. val_str c ''AWS_REGION'' True None) get_aws_region"
    "memoized fips_mode
     (\<lambda>c. case fst (get_aws_region c) of
          Inl e \<Rightarrow> Inl e
        | Inr r \<Rightarrow>
            val_bool c ''FIPS_MODE'' (Some (if re_search_gov sample_digits r then ''on'' else ''off'')))
     (get_fips_mode sample_digits)"
    "memoized global_prefix (\<lambda>c. val_str c ''GLOBAL_PREFIX'' True None) get_global_prefix"
    "memoized environment (\<lambda>c. val_str c ''ENVIRONMENT'' True None) get_environment"
    "memoized stack_name (\<lambda>c. val_str c ''STACK_NAME'' True None) get_stack_name"
    "memoized log_archive_mode (\<lambda>c. val_str c ''LOG_ARCHIVE_MODE'' True None) get_log_archive_mode"
    "memoized log_kms_key_id
     (\<lambda>c. case fst (get_log_archive_mode c) of
          Inl e \<Rightarrow> Inl e
        | Inr m \<Rightarrow>
            if m \<noteq> ''s3'' then Inl InvalidState
            else val_str c ''LOG_KMS_KEY_ID'' False None)
     get_log_kms_key_id"
    "memoized notification_arn (\<lambda>c. val_str c ''NOTIFICATION_ARN'' False None) get_notification_arn"
    "memoized log_bucket
     (\<lambda>c. case fst (build_bucket_name c ''logs'' True True False) of
          Inl e \<Rightarrow> Inl e
        | Inr b \<Rightarrow> val_str c ''LOG_BUCKET_NAME'' True (Some b))
     get_log_bucket_name"
    using getters_memoized by blast+
  note v = full_config_values
  note d = full_config_derived_values
  show ?thesis
    by (intro conjI)
       (rule again(1) [OF m(1) v(1)],
        rule again(2) [OF m(1) v(1)],
        rule again(1) [OF m(2) v(2)],
        rule again(2) [OF m(2) v(2)],
        rule again(1) [OF m(3) d(1)],
        rule again(2) [OF m(3) d(1)],
        rule again(1) [OF m(4) v(3)],
        rule again(2) [OF m(4) v(3)],
        rule again(1) [OF m(5) v(4)],
        rule again(2) [OF m(5) v(4)],
        rule again(1) [OF m(6) v(5)],
        rule again(2) [OF m(6) v(5)],
        rule again(1) [OF m(7) d(2)],
        rule again(2) [OF m(7) d(2)],
        rule again(1) [OF m(8) v(6)],
        rule again(2) [OF m(8) v(6)],
        rule again(1) [OF m(9) v(7)],
        rule again(2) [OF m(9) v(7)],
        rule again(1) [OF m(10) v(8)],
        rule again(2) [OF m(10) v(8)],
        rule again(1) [OF m(11) v(9)],
        rule again(2) [OF m(11) v(9)],
        rule again(1) [OF m(12) d(3)],
        rule again(2) [OF m(12) d(3)],
        rule again(1) [OF m(13) v(10)],
        rule again(2) [OF m(13) v(10)],
        rule again(1) [OF m(14) d(4)],
        rule again(2) [OF m(14) d(4)])
qed

end
